theory Spec2Isabelle
  imports Main "HOL-Library.Sublist"
begin

section \<open>Destination-side schema: Table, Columns, primary keys (types/table.go)\<close>

text \<open>
  Modelled from the spec: the declaration of \<open>SQLColumn\<close> is not part of the sources at
  hand; the spec describes it as a type name, a generic column-type tag and an override
  flag, and \<open>Field.GetSuggestedSQLType\<close> builds one from exactly these three fields.
  The zero value \<open>SQLColumn{}\<close> has empty strings and a false flag.
\<close>

record SQLColumn =
  Type :: string
  ColumnType :: string
  Override :: bool

definition SQLColumn_zero :: SQLColumn where
  "SQLColumn_zero = \<lparr>Type = [], ColumnType = [], Override = False\<rparr>"

text \<open>
  Modelled from the spec: \<open>utils.Set\<close>, the type of \<open>PKFields\<close>, is declared outside
  the sources at hand.  The spec calls the field the primary-key field-name set and
  compares it by unordered-set equality, so it is a set of strings, \<open>len(s) > 0\<close> is
  \<open>s \<noteq> {}\<close> and \<open>s.Equals(s')\<close> is \<open>s = s'\<close>.

  \<open>Columns\<close> is \<open>map[string]SQLColumn\<close>, and \<open>len(m) > 0\<close> on it is
  \<open>m \<noteq> Map.empty\<close>.  The \<open>Partition\<close> field of \<open>Table\<close> is neither read nor
  written by \<open>Exists\<close> and \<open>Diff\<close> and is left out.
\<close>

type_synonym Columns = "string \<rightharpoonup> SQLColumn"

record Table =
  Schema :: string
  Name :: string
  Columns :: Columns
  PKFields :: "string set"
  PrimaryKeyName :: string
  DeletePkFields :: bool

text \<open>\<open>(*Table).Exists\<close>: the receiver is a pointer, \<open>None\<close> is the nil pointer.\<close>

definition Table_Exists :: "Table option \<Rightarrow> bool" where
  "Table_Exists p =
     (case p of
        None \<Rightarrow> False
      | Some t \<Rightarrow> Columns t \<noteq> Map.empty \<or> PKFields t \<noteq> {} \<or> DeletePkFields t)"

definition BuildConstraintName :: "string \<Rightarrow> string \<Rightarrow> string" where
  "BuildConstraintName schemaName tableName = schemaName @ ''_'' @ tableName @ ''_pk''"

text \<open>
  \<open>(*Table).Diff\<close>.  The receiver \<open>t\<close> is dereferenced in the first statement, so it is
  a table; \<open>another\<close> is only passed to \<open>Exists\<close> before it is read, so it may be nil.
  The loop over \<open>another.Columns\<close> writes each absent name once, whatever the order.
\<close>

definition Table_Diff :: "Table \<Rightarrow> Table option \<Rightarrow> Table" where
  "Table_Diff t another =
     (let diff = \<lparr>Schema = Schema t, Name = Name t, Columns = Map.empty, PKFields = {},
                  PrimaryKeyName = [], DeletePkFields = False\<rparr>
      in case another of
           None \<Rightarrow> diff
         | Some a \<Rightarrow>
             if \<not> Table_Exists (Some a) then diff
             else
               let diff = diff\<lparr>Columns :=
                            (\<lambda>name. if Columns t name = None then Columns a name else None)\<rparr>;
                   jitsuPrimaryKeyName = BuildConstraintName (Schema t) (Name t)
               in if PrimaryKeyName t \<noteq> [] \<and> PrimaryKeyName t \<noteq> jitsuPrimaryKeyName
                  then diff
                  else if PKFields t \<noteq> {}
                  then (if PKFields t \<noteq> PKFields a
                        then diff\<lparr>DeletePkFields := True, PKFields := PKFields a,
                                  PrimaryKeyName := jitsuPrimaryKeyName\<rparr>
                        else diff)
                  else if PKFields a \<noteq> {}
                  then diff\<lparr>PKFields := PKFields a, PrimaryKeyName := jitsuPrimaryKeyName\<rparr>
                  else diff)"

text \<open>Concrete tables used to exercise the diff.\<close>

definition col_text :: SQLColumn where
  "col_text = \<lparr>Type = ''text'', ColumnType = ''string'', Override = False\<rparr>"

definition tbl_current :: Table where
  "tbl_current = \<lparr>Schema = ''public'', Name = ''events'',
                   Columns = [''id'' \<mapsto> col_text, ''name'' \<mapsto> col_text],
                   PKFields = {''id''}, PrimaryKeyName = ''public_events_pk'',
                   DeletePkFields = False\<rparr>"

definition tbl_desired :: Table where
  "tbl_desired = \<lparr>Schema = ''public'', Name = ''events'',
                   Columns = [''id'' \<mapsto> col_text, ''tenant'' \<mapsto> col_text],
                   PKFields = {''id'', ''tenant''}, PrimaryKeyName = [],
                   DeletePkFields = False\<rparr>"

definition tbl_nonexistent :: Table where
  "tbl_nonexistent = \<lparr>Schema = ''public'', Name = ''events'', Columns = Map.empty,
                       PKFields = {}, PrimaryKeyName = [], DeletePkFields = False\<rparr>"

definition tbl_nopk :: Table where
  "tbl_nopk = \<lparr>Schema = ''public'', Name = ''events'',
                Columns = [''id'' \<mapsto> col_text], PKFields = {}, PrimaryKeyName = [],
                DeletePkFields = False\<rparr>"

definition tbl_foreign :: Table where
  "tbl_foreign = \<lparr>Schema = ''public'', Name = ''events'',
                   Columns = [''id'' \<mapsto> col_text], PKFields = {''id''},
                   PrimaryKeyName = ''legacy_events_pkey'', DeletePkFields = False\<rparr>"

section \<open>The HTTP-API destination (bulkerlib/implementations/api_based/mixpanel.go)\<close>

text \<open>
  Modelled from the spec: \<open>bulker.BulkMode\<close> is declared outside the sources at hand.
  The spec gives the closed set Stream, Batch, ReplaceTable, ReplacePartition; the
  fall-through of \<open>CreateStream\<close> formats the mode with \<open>%s\<close>, so any other value is
  carried as the text it prints as.
\<close>

datatype BulkMode = Stream | Batch | ReplaceTable | ReplacePartition | OtherMode string

definition MixpanelUnsupported :: string where
  "MixpanelUnsupported = ''Only 'batch' mode is supported''"

text \<open>
  \<open>CreateStream\<close> returns a stream and an error (\<open>None\<close> is nil).  The constructor
  \<open>NewTransactionalStream\<close> is not part of the sources at hand and is a parameter; the
  receiver it is given is part of that parameter.
\<close>

definition CreateStream ::
  "(string \<Rightarrow> string \<Rightarrow> 'o \<Rightarrow> 's option \<times> string option) \<Rightarrow>
     string \<Rightarrow> string \<Rightarrow> BulkMode \<Rightarrow> 'o \<Rightarrow> 's option \<times> string option" where
  "CreateStream NewTransactionalStream streamId tableName mode streamOptions =
     (case mode of
        Stream \<Rightarrow> (None, Some MixpanelUnsupported)
      | Batch \<Rightarrow> NewTransactionalStream streamId tableName streamOptions
      | ReplaceTable \<Rightarrow> (None, Some MixpanelUnsupported)
      | ReplacePartition \<Rightarrow> (None, Some MixpanelUnsupported)
      | OtherMode m \<Rightarrow> (None, Some (''unsupported bulk mode: '' @ m)))"

definition retryDelaysMs :: "int list" where
  "retryDelaysMs = [100, 200, 200, 500, 0]"

text \<open>\<open>strings.Contains\<close>: the text has the given substring at some position.\<close>

fun Contains :: "string \<Rightarrow> string \<Rightarrow> bool" where
  "Contains [] substr = (substr = [])"
| "Contains (c # cs) substr = (prefix substr (c # cs) \<or> Contains cs substr)"

definition partial_failure_marker :: string where
  "partial_failure_marker = ''some data points in the request failed validation''"

text \<open>
  What one call of \<open>httpClient.Do\<close> gives: a transport error, or a response with its
  status code, the body text that could be read and the error of reading it, if any.
\<close>

datatype attempt =
    TransportError string
  | Response int string "string option"

datatype upload_error =
    ClosedInstance
  | ReadRequestBody string
  | NewRequest string
  | Transport string
  | HttpStatus int string

text \<open>
  The result of \<open>Upload\<close>: status code, response body, error (\<open>None\<close> is nil), and the
  delays in milliseconds that were slept, in order.
\<close>

type_synonym upload_result = "int \<times> string \<times> upload_error option \<times> int list"

text \<open>
  The loop over \<open>retryDelaysMs\<close>.  \<open>do i\<close> is the outcome of the \<open>i\<close>-th call of the
  HTTP client; \<open>newRequestErr\<close> is the error of \<open>http.NewRequest\<close>, which is built from
  the same arguments in every round.  The named results \<open>statusCode\<close>, \<open>respBody\<close> and
  \<open>err\<close> are threaded through; when the schedule ends they are returned as they stand.
\<close>

fun Upload_loop ::
  "string option \<Rightarrow> (nat \<Rightarrow> attempt) \<Rightarrow> nat \<Rightarrow> int list \<Rightarrow>
     int \<times> string \<times> upload_error option \<Rightarrow> int list \<Rightarrow> upload_result" where
  "Upload_loop newRequestErr do i [] (statusCode, respBody, err) slept =
     (statusCode, respBody, err, slept)"
| "Upload_loop newRequestErr do i (retryDelayMs # rest) (statusCode, respBody, err) slept =
     (case newRequestErr of
        Some e \<Rightarrow> (0, [], Some (NewRequest e), slept)
      | None \<Rightarrow>
          (case do i of
             TransportError e \<Rightarrow>
               Upload_loop newRequestErr do (Suc i) rest (0, [], Some (Transport e))
                 (slept @ [retryDelayMs])
           | Response status body readErr \<Rightarrow>
               (let errText = (case readErr of None \<Rightarrow> [] | Some e \<Rightarrow> e)
                in if status = 200 then (status, body, None, slept)
                   else if status = 400 then
                     (if Contains body partial_failure_marker
                      then (status, body, None, slept)
                      else (status, body, Some (HttpStatus status errText), slept))
                   else if status = 500 \<or> status = 502 \<or> status = 503 then
                     Upload_loop newRequestErr do (Suc i) rest
                       (status, body, Some (HttpStatus status errText))
                       (slept @ [retryDelayMs])
                   else (status, body, Some (HttpStatus status errText), slept))))"

text \<open>
  \<open>Upload\<close>: \<open>closed\<close> is the instance's closed flag, \<open>readBody\<close> the result of
  reading the request body (\<open>Inl\<close> its error).
\<close>

definition Upload ::
  "bool \<Rightarrow> string + string \<Rightarrow> string option \<Rightarrow> (nat \<Rightarrow> attempt) \<Rightarrow> upload_result" where
  "Upload closed readBody newRequestErr do =
     (if closed then (0, [], Some ClosedInstance, [])
      else case readBody of
             Inl e \<Rightarrow> (0, [], Some (ReadRequestBody e), [])
           | Inr body \<Rightarrow> Upload_loop newRequestErr do 0 retryDelaysMs (0, [], None) [])"

text \<open>
  The retry policy in the words of the spec, for comparison with the loop: which outcomes
  are tried again, and what an outcome leaves in the named results.
\<close>

definition retried :: "attempt \<Rightarrow> bool" where
  "retried a =
     (case a of
        TransportError e \<Rightarrow> True
      | Response status body readErr \<Rightarrow> status = 500 \<or> status = 502 \<or> status = 503)"

definition outcome :: "attempt \<Rightarrow> int \<times> string \<times> upload_error option" where
  "outcome a =
     (case a of
        TransportError e \<Rightarrow> (0, [], Some (Transport e))
      | Response status body readErr \<Rightarrow>
          (status, body,
           if status = 200 \<or> (status = 400 \<and> Contains body partial_failure_marker) then None
           else Some (HttpStatus status (case readErr of None \<Rightarrow> [] | Some e \<Rightarrow> e))))"

text \<open>Concrete servers used to exercise the upload.\<close>

definition always_503 :: "nat \<Rightarrow> attempt" where
  "always_503 i = Response 503 ''unavailable'' None"

definition first_504_then_200 :: "nat \<Rightarrow> attempt" where
  "first_504_then_200 i = (if i = 0 then Response 504 ''timeout'' None else Response 200 ''ok'' None)"

definition partial_400 :: "nat \<Rightarrow> attempt" where
  "partial_400 i =
     Response 400 ''{\"error\":\"some data points in the request failed validation\"}'' None"

definition plain_404 :: "nat \<Rightarrow> attempt" where
  "plain_404 i = Response 404 ''not found'' None"

definition flaky_then_200 :: "nat \<Rightarrow> attempt" where
  "flaky_then_200 i =
     (if i = 0 then TransportError ''connection reset''
      else if i = 1 then Response 502 ''bad gateway'' None
      else Response 200 ''ok'' None)"

definition no_stream_ctor :: "string \<Rightarrow> string \<Rightarrow> unit \<Rightarrow> nat option \<times> string option" where
  "no_stream_ctor streamId tableName streamOptions = (Some 0, None)"

section \<open>Type lattice\<close>

text \<open>
  Modelled from the spec: the declaration of \<open>DataType\<close> is not part of the sources at
  hand (only its constant \<open>UNKNOWN\<close> is named there).  The spec lists the kinds unknown,
  boolean, integer, floating-point, timestamp and string.
\<close>

datatype DataType = UNKNOWN | BOOLEAN | INTEGER | FLOAT | TIMESTAMP | STRING

text \<open>
  Modelled from the spec: \<open>GetCommonAncestorType\<close> is called by \<open>Field.GetType\<close> and is
  not part of the sources at hand.  The spec says that the join of a kind with itself is
  that kind and that the join of any two incompatible kinds is string, the universal
  supertype; it names no two distinct kinds as compatible, so distinct kinds join to
  string.
\<close>

definition GetCommonAncestorType :: "DataType \<Rightarrow> DataType \<Rightarrow> DataType" where
  "GetCommonAncestorType a b = (if a = b then a else STRING)"

text \<open>
  The laws of a join that the spec asks of the lattice.  The functions below that resolve
  a type take the join as a parameter, and their properties rest on these laws only.
\<close>

definition join_laws :: "(DataType \<Rightarrow> DataType \<Rightarrow> DataType) \<Rightarrow> bool" where
  "join_laws join =
     ((\<forall>a b. join a b = join b a)
      \<and> (\<forall>a b c. join a (join b c) = join (join a b) c)
      \<and> (\<forall>a. join a a = a))"

section \<open>Field and Fields (package types)\<close>

text \<open>
  A Go map is a reference: copying a \<open>Field\<close> copies the reference to its occurrence
  map, not the map.  The occurrence maps therefore live in a store, a list indexed by
  address; a new map is appended (nothing is ever freed).  A \<open>Field\<close> holds the address
  of its map, or \<open>None\<close> for the nil map.  The pointers \<open>dataType\<close> and
  \<open>sqlTypeSuggestion\<close> are never written through, so they are optional values.
\<close>

type_synonym occurrences = "DataType \<rightharpoonup> bool"

type_synonym store = "occurrences list"

record SQLTypeSuggestion =
  sqlType :: SQLColumn
  sqlTypePerDestination :: "string \<rightharpoonup> SQLColumn"

record Field =
  dataType :: "DataType option"
  sqlTypeSuggestion :: "SQLTypeSuggestion option"
  typeOccurrence :: "nat option"

type_synonym Fields = "string \<rightharpoonup> Field"

text \<open>Reading through a map reference; a nil map reads as the empty map.\<close>

definition deref :: "store \<Rightarrow> nat option \<Rightarrow> occurrences" where
  "deref h r = (case r of None \<Rightarrow> Map.empty
                | Some a \<Rightarrow> if a < length h then h ! a else Map.empty)"

text \<open>
  The order in which \<open>range\<close> visits the keys of an occurrence map is not fixed by the
  language.  It is a parameter \<open>order\<close>, of which only this is known: it lists every key
  once.  The entries of a \<open>Fields\<close> map are given to the functions that range over it as
  the list of its entries in the order visited.
\<close>

definition range_order :: "(occurrences \<Rightarrow> DataType list) \<Rightarrow> bool" where
  "range_order order = (\<forall>m. distinct (order m) \<and> set (order m) = dom m)"

definition type_keys :: "occurrences \<Rightarrow> DataType list" where
  "type_keys m = filter (\<lambda>t. t \<in> dom m) [UNKNOWN, BOOLEAN, INTEGER, FLOAT, TIMESTAMP, STRING]"

definition type_keys_rev :: "occurrences \<Rightarrow> DataType list" where
  "type_keys_rev m = rev (type_keys m)"

text \<open>\<open>NewField\<close> and \<open>NewFieldWithSQLType\<close> allocate the occurrence map.\<close>

definition NewField :: "store \<Rightarrow> DataType \<Rightarrow> store \<times> Field" where
  "NewField h t =
     (h @ [[t \<mapsto> True]],
      \<lparr>dataType = Some t, sqlTypeSuggestion = None, typeOccurrence = Some (length h)\<rparr>)"

definition NewFieldWithSQLType ::
  "store \<Rightarrow> DataType \<Rightarrow> SQLTypeSuggestion option \<Rightarrow> store \<times> Field" where
  "NewFieldWithSQLType h t suggestion =
     (h @ [[t \<mapsto> True]],
      \<lparr>dataType = Some t, sqlTypeSuggestion = suggestion, typeOccurrence = Some (length h)\<rparr>)"

definition GetSuggestedSQLType :: "Field \<Rightarrow> string \<Rightarrow> SQLColumn \<times> bool" where
  "GetSuggestedSQLType f destinationType =
     (case sqlTypeSuggestion f of
        None \<Rightarrow> (SQLColumn_zero, False)
      | Some s \<Rightarrow>
          (let (sqlType0, ok0) =
                 (case sqlTypePerDestination s destinationType of
                    None \<Rightarrow> (SQLColumn_zero, False)
                  | Some c \<Rightarrow> (c, True));
               (sqlType1, ok) =
                 (if \<not> ok0 \<and> Type (sqlType s) \<noteq> [] then (sqlType s, True)
                  else (sqlType0, ok0))
           in if ok
              then (\<lparr>Type = Type sqlType1, ColumnType = ColumnType sqlType1, Override = True\<rparr>,
                    ok)
              else (SQLColumn_zero, False)))"

text \<open>
  \<open>Field.GetType\<close> has a value receiver: the method works on a copy \<open>f\<close> of the
  caller's \<open>Field\<close>.  \<open>GetType_body\<close> gives the returned type together with the copy as
  it stands at the return; \<open>GetType\<close> is the returned type.  The call to
  \<open>logging.SystemError\<close> on an empty occurrence map only logs.
\<close>

definition GetType_body ::
  "(DataType \<Rightarrow> DataType \<Rightarrow> DataType) \<Rightarrow> (occurrences \<Rightarrow> DataType list) \<Rightarrow>
     store \<Rightarrow> Field \<Rightarrow> DataType \<times> Field" where
  "GetType_body join order h f =
     (case dataType f of
        Some d \<Rightarrow> (d, f)
      | None \<Rightarrow>
          (case order (deref h (typeOccurrence f)) of
             [] \<Rightarrow> (UNKNOWN, f)
           | t # types \<Rightarrow>
               (let common = foldl join t types
                in (common, f\<lparr>dataType := Some common\<rparr>))))"

definition GetType ::
  "(DataType \<Rightarrow> DataType \<Rightarrow> DataType) \<Rightarrow> (occurrences \<Rightarrow> DataType list) \<Rightarrow>
     store \<Rightarrow> Field \<Rightarrow> DataType" where
  "GetType join order h f = fst (GetType_body join order h f)"

text \<open>
  A call \<open>x.GetType()\<close> on a variable or map entry \<open>x\<close>: the receiver is passed by
  value, so \<open>x\<close> is after the call what it was before, whatever the method assigned to
  its copy.  The result is the returned type and \<open>x\<close> after the call.
\<close>

definition GetType_call ::
  "(DataType \<Rightarrow> DataType \<Rightarrow> DataType) \<Rightarrow> (occurrences \<Rightarrow> DataType list) \<Rightarrow>
     store \<Rightarrow> Field \<Rightarrow> DataType \<times> Field" where
  "GetType_call join order h x = (fst (GetType_body join order h x), x)"

text \<open>
  \<open>(*Field).Merge\<close>: pointer receiver, so the caller's \<open>Field\<close> and the store are
  updated.  A write to a nil map panics.
\<close>

datatype panic = NilMapWrite

fun Field_Merge_loop :: "DataType list \<Rightarrow> store \<Rightarrow> Field \<Rightarrow> panic + store \<times> Field" where
  "Field_Merge_loop [] h f = Inr (h, f)"
| "Field_Merge_loop (t # ts) h f =
     (if t \<in> dom (deref h (typeOccurrence f)) then Field_Merge_loop ts h f
      else case typeOccurrence f of
             None \<Rightarrow> Inl NilMapWrite
           | Some a \<Rightarrow> Field_Merge_loop ts (h[a := (h ! a)(t \<mapsto> True)]) (f\<lparr>dataType := None\<rparr>))"

definition Field_Merge ::
  "(occurrences \<Rightarrow> DataType list) \<Rightarrow> store \<Rightarrow> Field \<Rightarrow> Field \<Rightarrow> panic + store \<times> Field" where
  "Field_Merge order h f anotherField =
     Field_Merge_loop (order (deref h (typeOccurrence anotherField))) h f"

text \<open>
  \<open>Fields.Merge\<close>: \<open>other\<close> is the list of the entries of the other map in the order
  visited (no entries for a nil or empty map); \<open>f\<close> is the receiver, \<open>None\<close> for the
  nil map, returned updated with the store.  On a nil receiver the lookup
  \<open>f[otherName]\<close> finds nothing and the write \<open>f[otherName] = otherField\<close> panics.
\<close>

fun Fields_Merge ::
  "(occurrences \<Rightarrow> DataType list) \<Rightarrow> (string \<times> Field) list \<Rightarrow> store \<Rightarrow> Fields option \<Rightarrow>
     panic + store \<times> Fields option" where
  "Fields_Merge order [] h f = Inr (h, f)"
| "Fields_Merge order ((otherName, otherField) # other) h f =
     (case f of
        None \<Rightarrow> Inl NilMapWrite
      | Some m \<Rightarrow>
          (case m otherName of
             Some currentField \<Rightarrow>
               (case Field_Merge order h currentField otherField of
                  Inl p \<Rightarrow> Inl p
                | Inr (h', currentField') \<Rightarrow>
                    Fields_Merge order other h' (Some (m(otherName \<mapsto> currentField'))))
           | None \<Rightarrow> Fields_Merge order other h (Some (m(otherName \<mapsto> otherField)))))"

text \<open>
  The same loop on a receiver that is not nil, given as its map.  It is what
  \<open>Fields_Merge\<close> computes on \<open>Some m\<close> (lemma \<open>Fields_Merge_Some\<close>) and carries the
  proofs about the loop.
\<close>

fun Fields_Merge_map ::
  "(occurrences \<Rightarrow> DataType list) \<Rightarrow> (string \<times> Field) list \<Rightarrow> store \<Rightarrow> Fields \<Rightarrow>
     panic + store \<times> Fields" where
  "Fields_Merge_map order [] h f = Inr (h, f)"
| "Fields_Merge_map order ((otherName, otherField) # other) h f =
     (case f otherName of
        Some currentField \<Rightarrow>
          (case Field_Merge order h currentField otherField of
             Inl p \<Rightarrow> Inl p
           | Inr (h', currentField') \<Rightarrow>
               Fields_Merge_map order other h' (f(otherName \<mapsto> currentField')))
      | None \<Rightarrow> Fields_Merge_map order other h (f(otherName \<mapsto> otherField)))"

text \<open>\<open>Fields.Clone\<close>: a new occurrence map is allocated and filled for every field.\<close>

fun copy_occurrences :: "DataType list \<Rightarrow> occurrences \<Rightarrow> occurrences \<Rightarrow> occurrences" where
  "copy_occurrences [] src clonedTypeOccurence = clonedTypeOccurence"
| "copy_occurrences (typeName # rest) src clonedTypeOccurence =
     copy_occurrences rest src (clonedTypeOccurence(typeName := src typeName))"

fun Clone_loop ::
  "(occurrences \<Rightarrow> DataType list) \<Rightarrow> (string \<times> Field) list \<Rightarrow> store \<Rightarrow> Fields \<Rightarrow>
     store \<times> Fields" where
  "Clone_loop order [] h clone = (h, clone)"
| "Clone_loop order ((fieldName, fieldPayload) # rest) h clone =
     (let src = deref h (typeOccurrence fieldPayload);
          clonedTypeOccurence = copy_occurrences (order src) src Map.empty
      in Clone_loop order rest (h @ [clonedTypeOccurence])
           (clone(fieldName \<mapsto>
              \<lparr>dataType = dataType fieldPayload, sqlTypeSuggestion = None,
               typeOccurrence = Some (length h)\<rparr>)))"

definition Fields_Clone ::
  "(occurrences \<Rightarrow> DataType list) \<Rightarrow> (string \<times> Field) list \<Rightarrow> store \<Rightarrow> store \<times> Fields" where
  "Fields_Clone order f h = Clone_loop order f h Map.empty"

text \<open>
  \<open>Fields.Add\<close>: no occurrence map is read or written.  The receiver is \<open>None\<close> for
  the nil map, on which the write \<open>f[otherName] = otherField\<close> panics.
\<close>

fun Fields_Add :: "(string \<times> Field) list \<Rightarrow> Fields option \<Rightarrow> panic + Fields option" where
  "Fields_Add [] f = Inr f"
| "Fields_Add ((otherName, otherField) # other) f =
     (case f of
        None \<Rightarrow> Inl NilMapWrite
      | Some m \<Rightarrow>
          if m otherName = None then Fields_Add other (Some (m(otherName \<mapsto> otherField)))
          else Fields_Add other f)"

text \<open>Concrete fields and stores used to exercise the field operations.\<close>

definition store_dirty :: store where
  "store_dirty = [[INTEGER \<mapsto> True, STRING \<mapsto> True]]"

definition fld_dirty :: Field where
  "fld_dirty = \<lparr>dataType = None, sqlTypeSuggestion = None, typeOccurrence = Some 0\<rparr>"

definition col_pg :: SQLColumn where
  "col_pg = \<lparr>Type = ''jsonb'', ColumnType = ''json'', Override = False\<rparr>"

definition store_hint :: store where
  "store_hint = [[INTEGER \<mapsto> True]]"

definition fld_hint :: Field where
  "fld_hint = \<lparr>dataType = Some INTEGER,
               sqlTypeSuggestion =
                 Some \<lparr>sqlType = col_text, sqlTypePerDestination = [''postgres'' \<mapsto> col_pg]\<rparr>,
               typeOccurrence = Some 0\<rparr>"

text \<open>
  A map reference is valid in a store when it is nil or the address of a map of the store;
  a running program holds no other references.
\<close>

definition valid_ref :: "store \<Rightarrow> nat option \<Rightarrow> bool" where
  "valid_ref h r = (case r of None \<Rightarrow> True | Some a \<Rightarrow> a < length h)"

text \<open>The occurrence map \<open>m\<close> with the kinds of \<open>S\<close> that it lacks set to true.\<close>

definition add_occurrences :: "occurrences \<Rightarrow> DataType set \<Rightarrow> occurrences" where
  "add_occurrences m S = (\<lambda>t. if t \<in> S \<and> m t = None then Some True else m t)"

definition store_ab :: store where
  "store_ab = [[INTEGER \<mapsto> True], [STRING \<mapsto> True]]"

definition fld_a :: Field where
  "fld_a = \<lparr>dataType = Some INTEGER, sqlTypeSuggestion = None, typeOccurrence = Some 0\<rparr>"

definition fld_b :: Field where
  "fld_b = \<lparr>dataType = Some STRING, sqlTypeSuggestion = None, typeOccurrence = Some 1\<rparr>"

definition fields_ab :: "(string \<times> Field) list" where
  "fields_ab = [(''a'', fld_a), (''b'', fld_b)]"

definition fields_a_string :: "(string \<times> Field) list" where
  "fields_a_string = [(''a'', fld_b)]"

text \<open>
  The join of the kinds of an occurrence map (\<open>UNKNOWN\<close> for the empty map), and the
  invariant the spec gives for a \<open>Field\<close>: its occurrence set is not empty, and its
  cached type, when set, is the join of its occurrences.
\<close>

definition join_of :: "(DataType \<Rightarrow> DataType \<Rightarrow> DataType) \<Rightarrow> occurrences \<Rightarrow> DataType" where
  "join_of join m = (case type_keys m of [] \<Rightarrow> UNKNOWN | t # ts \<Rightarrow> foldl join t ts)"

definition field_ok :: "(DataType \<Rightarrow> DataType \<Rightarrow> DataType) \<Rightarrow> store \<Rightarrow> Field \<Rightarrow> bool" where
  "field_ok join h fld =
     (dom (deref h (typeOccurrence fld)) \<noteq> {}
      \<and> (case dataType fld of
            None \<Rightarrow> True
          | Some d \<Rightarrow> d = join_of join (deref h (typeOccurrence fld))))"

text \<open>
  Ownership, as the spec has it (a \<open>Fields\<close> value shares no mutable state): every field
  of \<open>f\<close> holds an allocated occurrence map that no other field of \<open>f\<close> and no field of
  \<open>g\<close> holds.
\<close>

definition owns_maps :: "store \<Rightarrow> Fields \<Rightarrow> Fields \<Rightarrow> bool" where
  "owns_maps h f g =
     ((\<forall>n x. f n = Some x \<longrightarrow> (\<exists>a. typeOccurrence x = Some a \<and> a < length h))
      \<and> (\<forall>n m x y. f n = Some x \<and> f m = Some y \<and> n \<noteq> m \<longrightarrow>
             typeOccurrence x \<noteq> typeOccurrence y)
      \<and> (\<forall>n m x y. f n = Some x \<and> g m = Some y \<longrightarrow> typeOccurrence x \<noteq> typeOccurrence y))"

definition store_abc :: store where
  "store_abc = [[INTEGER \<mapsto> True], [STRING \<mapsto> True], [BOOLEAN \<mapsto> True]]"

definition fld_c :: Field where
  "fld_c = \<lparr>dataType = Some BOOLEAN, sqlTypeSuggestion = None, typeOccurrence = Some 2\<rparr>"

definition fields_a :: Fields where
  "fields_a = [''a'' \<mapsto> fld_a]"

definition fields_a_c :: "(string \<times> Field) list" where
  "fields_a_c = [(''a'', fld_b), (''c'', fld_c)]"

text \<open>
  A run of the package's own operations that leaves an entry with a cached type that is
  not the join of its occurrences.  \<open>NewField(INTEGER)\<close> gives \<open>fld_a\<close> in
  \<open>store_hint\<close>; \<open>Fields{}.Merge({c: fld_a})\<close> copies the entry in, so both maps hold
  the occurrence map at address 0; merging \<open>{c: NewField(STRING)}\<close> into the copy writes
  that map (\<open>store_stale\<close>) and wipes the cache of the copy only (\<open>fields_c_wiped\<close>).
\<close>

definition fields_empty :: Fields where
  "fields_empty = Map.empty"

definition fields_c_int :: Fields where
  "fields_c_int = [''c'' \<mapsto> fld_a]"

definition fields_c_wiped :: Fields where
  "fields_c_wiped = [''c'' \<mapsto> fld_a\<lparr>dataType := None\<rparr>]"

definition entries_c_int :: "(string \<times> Field) list" where
  "entries_c_int = [(''c'', fld_a)]"

definition entries_c_string :: "(string \<times> Field) list" where
  "entries_c_string = [(''c'', fld_b)]"

definition store_stale :: store where
  "store_stale = [[INTEGER \<mapsto> True, STRING \<mapsto> True], [STRING \<mapsto> True]]"

definition store_stale3 :: store where
  "store_stale3 = [[INTEGER \<mapsto> True, STRING \<mapsto> True], [STRING \<mapsto> True], [STRING \<mapsto> True]]"

definition fld_s2 :: Field where
  "fld_s2 = \<lparr>dataType = Some STRING, sqlTypeSuggestion = None, typeOccurrence = Some 2\<rparr>"

definition entries_c_string2 :: "(string \<times> Field) list" where
  "entries_c_string2 = [(''c'', fld_s2)]"

text \<open>
  Values a Go program can build by copying a \<open>Field\<close> value or by taking the zero
  value \<open>Field{}\<close>: an entry of \<open>g\<close> that holds the occurrence map of an entry of
  \<open>f\<close>, and a receiver whose entry has the nil occurrence map.
\<close>

definition fld_zero :: Field where
  "fld_zero = \<lparr>dataType = None, sqlTypeSuggestion = None, typeOccurrence = None\<rparr>"

definition fields_c_zero :: Fields where
  "fields_c_zero = [''c'' \<mapsto> fld_zero]"

definition entries_a_string_c_shared :: "(string \<times> Field) list" where
  "entries_a_string_c_shared = [(''a'', fld_b), (''c'', fld_a)]"

definition fields_a_c_shared :: Fields where
  "fields_a_c_shared = [''a'' \<mapsto> fld_a\<lparr>dataType := None\<rparr>, ''c'' \<mapsto> fld_a]"

section \<open>Properties of the table diff\<close>

lemma Table_Diff_not_exists:
  "\<not> Table_Exists another \<Longrightarrow>
     Table_Diff t another =
       \<lparr>Schema = Schema t, Name = Name t, Columns = Map.empty, PKFields = {},
        PrimaryKeyName = [], DeletePkFields = False\<rparr>"
  by (cases another) (simp_all add: Table_Diff_def)

lemma Table_Diff_Columns_exists:
  "Table_Exists (Some a) \<Longrightarrow>
     Columns (Table_Diff t (Some a)) =
       (\<lambda>name. if Columns t name = None then Columns a name else None)"
  by (simp add: Table_Diff_def Let_def)

lemma Table_Exists_None_Columns:
  "\<not> Table_Exists (Some a) \<Longrightarrow> Columns a = Map.empty"
  by (simp add: Table_Exists_def)

lemma Table_Diff_Columns:
  "Columns (Table_Diff t another) =
     (case another of
        None \<Rightarrow> Map.empty
      | Some a \<Rightarrow> (\<lambda>name. if Columns t name = None then Columns a name else None))"
proof (cases another)
  case None
  then show ?thesis by (simp add: Table_Diff_def)
next
  case (Some a)
  show ?thesis
  proof (cases "Table_Exists (Some a)")
    case True
    with Some show ?thesis by (simp add: Table_Diff_Columns_exists)
  next
    case False
    then have "Columns a = Map.empty" by (rule Table_Exists_None_Columns)
    moreover from False have "Columns (Table_Diff t (Some a)) = Map.empty"
      by (simp add: Table_Diff_not_exists)
    ultimately show ?thesis using Some by (simp add: fun_eq_iff)
  qed
qed

text \<open>
  Claim C1.  For every current table and every desired table (nil included), the column
  set of the patch holds exactly the names that the desired table has and the current one
  lacks, each with the desired table's column descriptor; so no column of the current
  table is in the patch.  When the desired table does not exist, the patch does not exist
  either.
\<close>

theorem C1_diff_additivity:
  "dom (Columns (Table_Diff t another)) =
       (case another of None \<Rightarrow> {} | Some a \<Rightarrow> dom (Columns a) - dom (Columns t))
   \<and> (\<forall>name c. Columns (Table_Diff t another) name = Some c \<longrightarrow>
         Columns t name = None \<and> (\<exists>a. another = Some a \<and> Columns a name = Some c))
   \<and> (\<not> Table_Exists another \<longrightarrow> \<not> Table_Exists (Some (Table_Diff t another)))"
proof (intro conjI)
  show "dom (Columns (Table_Diff t another)) =
          (case another of None \<Rightarrow> {} | Some a \<Rightarrow> dom (Columns a) - dom (Columns t))"
    by (cases another) (auto simp: Table_Diff_Columns dom_def split: if_splits)
  show "\<forall>name c. Columns (Table_Diff t another) name = Some c \<longrightarrow>
          Columns t name = None \<and> (\<exists>a. another = Some a \<and> Columns a name = Some c)"
    by (cases another) (auto simp: Table_Diff_Columns split: if_splits)
  show "\<not> Table_Exists another \<longrightarrow> \<not> Table_Exists (Some (Table_Diff t another))"
    by (simp add: Table_Diff_not_exists Table_Exists_def)
qed

theorem C1_diff_additivity_witness:
  "dom (Columns (Table_Diff tbl_current (Some tbl_desired))) = {''tenant''}
   \<and> Columns (Table_Diff tbl_current (Some tbl_desired)) ''tenant'' = Some col_text
   \<and> Columns tbl_current ''tenant'' = None
   \<and> \<not> Table_Exists (Some tbl_nonexistent)
   \<and> \<not> Table_Exists (Some (Table_Diff tbl_current (Some tbl_nonexistent)))"
proof -
  have ex: "\<not> Table_Exists (Some tbl_nonexistent)"
    by (simp add: Table_Exists_def tbl_nonexistent_def)
  have d: "dom (Columns tbl_desired) - dom (Columns tbl_current) = {''tenant''}"
    by (auto simp: tbl_desired_def tbl_current_def)
  have c: "Columns (Table_Diff tbl_current (Some tbl_desired)) ''tenant'' = Some col_text"
    by (simp add: Table_Diff_def Table_Exists_def tbl_desired_def tbl_current_def
        BuildConstraintName_def Let_def)
  from C1_diff_additivity [of tbl_current "Some tbl_desired"]
       C1_diff_additivity [of tbl_current "Some tbl_nonexistent"] ex d c
  show ?thesis by simp
qed

lemma Table_Diff_exists_unfold:
  "Table_Exists (Some a) \<Longrightarrow>
     Table_Diff t (Some a) =
       (let diff = \<lparr>Schema = Schema t, Name = Name t,
                     Columns = (\<lambda>name. if Columns t name = None then Columns a name else None),
                     PKFields = {}, PrimaryKeyName = [], DeletePkFields = False\<rparr>;
            jitsuPrimaryKeyName = BuildConstraintName (Schema t) (Name t)
        in if PrimaryKeyName t \<noteq> [] \<and> PrimaryKeyName t \<noteq> jitsuPrimaryKeyName
           then diff
           else if PKFields t \<noteq> {}
           then (if PKFields t \<noteq> PKFields a
                 then diff\<lparr>DeletePkFields := True, PKFields := PKFields a,
                           PrimaryKeyName := jitsuPrimaryKeyName\<rparr>
                 else diff)
           else if PKFields a \<noteq> {}
           then diff\<lparr>PKFields := PKFields a, PrimaryKeyName := jitsuPrimaryKeyName\<rparr>
           else diff)"
  by (simp add: Table_Diff_def Let_def)

text \<open>
  Claim C2, as stated, for every pair of tables: it fails when the desired table does not
  exist.  The current table below has the system-generated constraint name and the primary
  key \<open>{id}\<close>, which differs from the empty key of the non-existent desired table, and
  yet the patch carries no delete flag: the guard on \<open>another.Exists()\<close> returns first.
\<close>

theorem C2_pk_lifecycle_counterexample:
  "\<not> (PrimaryKeyName tbl_current \<noteq> []
        \<and> PrimaryKeyName tbl_current
            \<noteq> BuildConstraintName (Schema tbl_current) (Name tbl_current))
   \<and> PKFields tbl_current \<noteq> {}
   \<and> PKFields tbl_current \<noteq> PKFields tbl_nonexistent
   \<and> \<not> DeletePkFields (Table_Diff tbl_current (Some tbl_nonexistent))
   \<and> PKFields (Table_Diff tbl_current (Some tbl_nonexistent)) = {}
   \<and> PrimaryKeyName (Table_Diff tbl_current (Some tbl_nonexistent)) = []"
  by (simp add: Table_Diff_def Table_Exists_def tbl_current_def tbl_nonexistent_def
      BuildConstraintName_def)

text \<open>
  Claim C2, amended.  When the desired table does not exist (nil included) the patch
  contains no primary-key change.  When it exists: if the current constraint name is
  non-empty and differs from the system-generated name \<open>schema_table_pk\<close>, the patch
  contains no primary-key change; else if the current table has primary-key fields and
  they differ as a set from the desired ones, the patch has the delete flag, the desired
  fields and the system-generated name; else if the current table has no primary-key fields
  and the desired one has some, the patch has the desired fields and the system-generated
  name without the delete flag; else there is no primary-key action.
\<close>

theorem C2_pk_lifecycle:
  "(\<not> Table_Exists another \<longrightarrow>
       PKFields (Table_Diff t another) = {} \<and> PrimaryKeyName (Table_Diff t another) = []
       \<and> \<not> DeletePkFields (Table_Diff t another))
   \<and> (Table_Exists (Some a) \<longrightarrow>
        (let jn = BuildConstraintName (Schema t) (Name t); d = Table_Diff t (Some a)
         in if PrimaryKeyName t \<noteq> [] \<and> PrimaryKeyName t \<noteq> jn
            then PKFields d = {} \<and> PrimaryKeyName d = [] \<and> \<not> DeletePkFields d
            else if PKFields t \<noteq> {} \<and> PKFields t \<noteq> PKFields a
            then DeletePkFields d \<and> PKFields d = PKFields a \<and> PrimaryKeyName d = jn
            else if PKFields t = {} \<and> PKFields a \<noteq> {}
            then \<not> DeletePkFields d \<and> PKFields d = PKFields a \<and> PrimaryKeyName d = jn
            else PKFields d = {} \<and> PrimaryKeyName d = [] \<and> \<not> DeletePkFields d))
   \<and> BuildConstraintName (Schema t) (Name t) = Schema t @ ''_'' @ Name t @ ''_pk''"
proof (intro conjI impI)
  assume "\<not> Table_Exists another"
  then have "Table_Diff t another =
       \<lparr>Schema = Schema t, Name = Name t, Columns = Map.empty, PKFields = {},
        PrimaryKeyName = [], DeletePkFields = False\<rparr>"
    by (rule Table_Diff_not_exists)
  then show "PKFields (Table_Diff t another) = {}"
    and "PrimaryKeyName (Table_Diff t another) = []"
    and "\<not> DeletePkFields (Table_Diff t another)"
    by simp_all
next
  assume "Table_Exists (Some a)"
  then show "let jn = BuildConstraintName (Schema t) (Name t); d = Table_Diff t (Some a)
         in if PrimaryKeyName t \<noteq> [] \<and> PrimaryKeyName t \<noteq> jn
            then PKFields d = {} \<and> PrimaryKeyName d = [] \<and> \<not> DeletePkFields d
            else if PKFields t \<noteq> {} \<and> PKFields t \<noteq> PKFields a
            then DeletePkFields d \<and> PKFields d = PKFields a \<and> PrimaryKeyName d = jn
            else if PKFields t = {} \<and> PKFields a \<noteq> {}
            then \<not> DeletePkFields d \<and> PKFields d = PKFields a \<and> PrimaryKeyName d = jn
            else PKFields d = {} \<and> PrimaryKeyName d = [] \<and> \<not> DeletePkFields d"
    by (simp add: Table_Diff_exists_unfold Let_def)
next
  show "BuildConstraintName (Schema t) (Name t) = Schema t @ ''_'' @ Name t @ ''_pk''"
    by (simp add: BuildConstraintName_def)
qed

theorem C2_pk_lifecycle_witness:
  "Table_Exists (Some tbl_desired)
   \<and> DeletePkFields (Table_Diff tbl_current (Some tbl_desired))
   \<and> PKFields (Table_Diff tbl_current (Some tbl_desired)) = {''id'', ''tenant''}
   \<and> PrimaryKeyName (Table_Diff tbl_current (Some tbl_desired)) = ''public_events_pk''
   \<and> \<not> DeletePkFields (Table_Diff tbl_nopk (Some tbl_current))
   \<and> PKFields (Table_Diff tbl_nopk (Some tbl_current)) = {''id''}
   \<and> PKFields (Table_Diff tbl_foreign (Some tbl_desired)) = {}
   \<and> \<not> DeletePkFields (Table_Diff tbl_foreign (Some tbl_desired))
   \<and> \<not> Table_Exists None
   \<and> \<not> DeletePkFields (Table_Diff tbl_current None)"
proof -
  have e1: "Table_Exists (Some tbl_desired)"
    by (simp add: Table_Exists_def tbl_desired_def)
  have e2: "Table_Exists (Some tbl_current)"
    by (simp add: Table_Exists_def tbl_current_def)
  have e3: "\<not> Table_Exists None"
    by (simp add: Table_Exists_def)
  have n1: "BuildConstraintName (Schema tbl_current) (Name tbl_current) = ''public_events_pk''"
    by (simp add: BuildConstraintName_def tbl_current_def)
  have n2: "BuildConstraintName (Schema tbl_foreign) (Name tbl_foreign) = ''public_events_pk''"
    by (simp add: BuildConstraintName_def tbl_foreign_def)
  have p: "PrimaryKeyName tbl_current = ''public_events_pk''"
      "PKFields tbl_current = {''id''}" "PKFields tbl_desired = {''id'', ''tenant''}"
      "PKFields tbl_nopk = {}" "PrimaryKeyName tbl_nopk = []"
      "PrimaryKeyName tbl_foreign = ''legacy_events_pkey''"
    by (simp_all add: tbl_current_def tbl_desired_def tbl_nopk_def tbl_foreign_def)
  have d: "{''id''} \<noteq> {''id'', ''tenant''}"
    by auto
  from C2_pk_lifecycle [of "Some tbl_desired" tbl_current tbl_desired] e1 n1 p d
  have c1: "DeletePkFields (Table_Diff tbl_current (Some tbl_desired))
      \<and> PKFields (Table_Diff tbl_current (Some tbl_desired)) = {''id'', ''tenant''}
      \<and> PrimaryKeyName (Table_Diff tbl_current (Some tbl_desired)) = ''public_events_pk''"
    by (simp add: Let_def)
  from C2_pk_lifecycle [of "Some tbl_current" tbl_nopk tbl_current] e2 p
  have c2: "\<not> DeletePkFields (Table_Diff tbl_nopk (Some tbl_current))
      \<and> PKFields (Table_Diff tbl_nopk (Some tbl_current)) = {''id''}"
    by (simp add: Let_def)
  from C2_pk_lifecycle [of "Some tbl_desired" tbl_foreign tbl_desired] e1 n2 p
  have c3: "PKFields (Table_Diff tbl_foreign (Some tbl_desired)) = {}
      \<and> \<not> DeletePkFields (Table_Diff tbl_foreign (Some tbl_desired))"
    by (simp add: Let_def)
  from C2_pk_lifecycle [of None tbl_current tbl_desired] e3
  have c4: "\<not> DeletePkFields (Table_Diff tbl_current None)"
    by simp
  from e1 e3 c1 c2 c3 c4 show ?thesis by simp
qed

section \<open>Properties of the HTTP-API destination\<close>

lemma Contains_iff: "Contains s substr \<longleftrightarrow> (\<exists>ps ss. s = ps @ substr @ ss)"
proof (induction s)
  case Nil
  then show ?case by auto
next
  case (Cons c cs)
  show ?case
  proof
    assume "Contains (c # cs) substr"
    then consider "prefix substr (c # cs)" | "Contains cs substr" by auto
    then show "\<exists>ps ss. c # cs = ps @ substr @ ss"
    proof cases
      case 1
      then obtain ss where "c # cs = substr @ ss" by (auto simp: prefix_def)
      then have "c # cs = [] @ substr @ ss" by simp
      then show ?thesis by blast
    next
      case 2
      with Cons.IH obtain ps ss where "cs = ps @ substr @ ss" by blast
      then have "c # cs = (c # ps) @ substr @ ss" by simp
      then show ?thesis by blast
    qed
  next
    assume "\<exists>ps ss. c # cs = ps @ substr @ ss"
    then obtain ps ss where e: "c # cs = ps @ substr @ ss" by blast
    show "Contains (c # cs) substr"
    proof (cases ps)
      case Nil
      with e have "prefix substr (c # cs)" by (simp add: prefix_def)
      then show ?thesis by simp
    next
      case (Cons p ps')
      with e have "cs = ps' @ substr @ ss" by simp
      with Cons.IH have "Contains cs substr" by blast
      then show ?thesis by simp
    qed
  qed
qed

text \<open>
  Claim C9.  \<open>CreateStream\<close> hands the Batch mode to the stream constructor and returns
  what it returns; for Stream, ReplaceTable and ReplacePartition it returns no stream and
  the error "Only 'batch' mode is supported"; for any other mode value it returns no
  stream and an error that names the mode.  So a stream is returned for the Batch mode
  only, and every other mode fails at creation.
\<close>

theorem C9_create_stream:
  "CreateStream ctor i tbl Batch so = ctor i tbl so
   \<and> (mode \<in> {Stream, ReplaceTable, ReplacePartition} \<longrightarrow>
        CreateStream ctor i tbl mode so = (None, Some ''Only 'batch' mode is supported''))
   \<and> CreateStream ctor i tbl (OtherMode m) so = (None, Some (''unsupported bulk mode: '' @ m))
   \<and> (mode \<noteq> Batch \<longrightarrow>
        fst (CreateStream ctor i tbl mode so) = None
        \<and> snd (CreateStream ctor i tbl mode so) \<noteq> None)
   \<and> (fst (CreateStream ctor i tbl mode so) \<noteq> None \<longrightarrow> mode = Batch)"
  by (cases mode) (simp_all add: CreateStream_def MixpanelUnsupported_def)

theorem C9_create_stream_witness:
  "ReplaceTable \<in> {Stream, ReplaceTable, ReplacePartition}
   \<and> ReplaceTable \<noteq> Batch
   \<and> CreateStream no_stream_ctor ''s1'' ''events'' ReplaceTable ()
       = (None, Some ''Only 'batch' mode is supported'')
   \<and> fst (CreateStream no_stream_ctor ''s1'' ''events'' Batch ()) \<noteq> None"
proof -
  have "fst (no_stream_ctor ''s1'' ''events'' ()) \<noteq> None"
    by (simp add: no_stream_ctor_def)
  with C9_create_stream [of no_stream_ctor "''s1''" "''events''" "()" ReplaceTable]
  show ?thesis by simp
qed

lemma Upload_loop_retried:
  "retried (do i) \<Longrightarrow>
     Upload_loop None do i (d # ds) st slept =
       Upload_loop None do (Suc i) ds (outcome (do i)) (slept @ [d])"
  by (cases st; cases "do i")
     (auto simp: retried_def outcome_def Let_def split: option.splits)

lemma Upload_loop_terminal:
  "\<not> retried (do i) \<Longrightarrow>
     Upload_loop None do i (d # ds) st slept =
       (fst (outcome (do i)), fst (snd (outcome (do i))), snd (snd (outcome (do i))), slept)"
  by (cases st; cases "do i")
     (auto simp: retried_def outcome_def Let_def split: option.splits)

lemma Upload_loop_all_retried:
  "ds \<noteq> [] \<Longrightarrow> (\<And>j. j < length ds \<Longrightarrow> retried (do (i + j))) \<Longrightarrow>
     Upload_loop None do i ds st slept =
       (fst (outcome (do (i + length ds - 1))), fst (snd (outcome (do (i + length ds - 1)))),
        snd (snd (outcome (do (i + length ds - 1)))), slept @ ds)"
proof (induction ds arbitrary: i st slept)
  case Nil
  then show ?case by simp
next
  case (Cons d ds)
  from Cons.prems(2) [of 0] have r: "retried (do i)" by simp
  show ?case
  proof (cases "ds = []")
    case True
    with r show ?thesis
      by (cases "outcome (do i)") (simp add: Upload_loop_retried)
  next
    case False
    have "\<And>j. j < length ds \<Longrightarrow> retried (do (Suc i + j))"
      using Cons.prems(2) [of "Suc _"] by simp
    from Cons.IH [OF False this] r False show ?thesis
      by (simp add: Upload_loop_retried)
  qed
qed

lemma Upload_loop_first_terminal:
  "k < length ds \<Longrightarrow> (\<And>j. j < k \<Longrightarrow> retried (do (i + j))) \<Longrightarrow> \<not> retried (do (i + k)) \<Longrightarrow>
     Upload_loop None do i ds st slept =
       (fst (outcome (do (i + k))), fst (snd (outcome (do (i + k)))),
        snd (snd (outcome (do (i + k)))), slept @ take k ds)"
proof (induction ds arbitrary: i k st slept)
  case Nil
  then show ?case by simp
next
  case (Cons d ds)
  show ?case
  proof (cases k)
    case 0
    with Cons.prems(3) show ?thesis by (simp add: Upload_loop_terminal)
  next
    case (Suc k')
    from Cons.prems(2) [of 0] Suc have r: "retried (do i)" by simp
    have a: "k' < length ds" using Cons.prems(1) Suc by simp
    have b: "\<And>j. j < k' \<Longrightarrow> retried (do (Suc i + j))"
      using Cons.prems(2) [of "Suc _"] Suc by simp
    have c: "\<not> retried (do (Suc i + k'))" using Cons.prems(3) Suc by simp
    from Cons.IH [OF a b c] r Suc show ?thesis
      by (simp add: Upload_loop_retried)
  qed
qed

lemma retried_outcome_error: "retried a \<Longrightarrow> snd (snd (outcome a)) \<noteq> None"
  by (cases a) (auto simp: retried_def outcome_def)

text \<open>
  Claim C7, as stated: it fails for a 5xx status other than 500, 502 and 503.  The server
  below answers 504 first and would answer 200 next; the upload returns the 504 as a
  failure at once, without sleeping and without a second request.
\<close>

theorem C7_upload_retry_counterexample:
  "first_504_then_200 0 = Response 504 ''timeout'' None
   \<and> first_504_then_200 1 = Response 200 ''ok'' None
   \<and> Upload False (Inr ''payload'') None first_504_then_200
       = (504, ''timeout'', Some (HttpStatus 504 []), [])"
  by (simp add: Upload_def retryDelaysMs_def first_504_then_200_def)

text \<open>
  Claim C7, amended.  For every upload on an open instance whose body and request can be
  built: transport errors and the statuses 500, 502 and 503 are tried again, each after
  the next delay of the fixed schedule 100, 200, 200, 500, 0 ms; if the first \<open>k < 5\<close>
  attempts are of that kind and attempt \<open>k\<close> is not, the upload returns what attempt \<open>k\<close>
  gives after sleeping the first \<open>k\<close> delays: success for status 200 and for status 400
  with the partial-validation-failure marker in the body, a failure for every other status
  (all other 4xx, and 5xx such as 504), with no further request; if all five attempts are
  of that kind, the schedule is exhausted and the failure of the fifth attempt is returned
  after all five delays.
\<close>

theorem C7_upload_retry:
  assumes "k \<le> 5"
    and "\<forall>j<k. retried (do j)"
    and "k < 5 \<longrightarrow> \<not> retried (do k)"
  shows "Upload False (Inr body) None do =
           (fst (outcome (do (min k 4))), fst (snd (outcome (do (min k 4)))),
            snd (snd (outcome (do (min k 4)))), take k [100, 200, 200, 500, 0])
         \<and> (k = 5 \<longrightarrow> snd (snd (outcome (do (min k 4)))) \<noteq> None)"
proof -
  have len: "length retryDelaysMs = 5"
    by (simp add: retryDelaysMs_def)
  have U: "Upload False (Inr body) None do = Upload_loop None do 0 retryDelaysMs (0, [], None) []"
    by (simp add: Upload_def)
  have D: "retryDelaysMs = [100, 200, 200, 500, 0]"
    by (simp add: retryDelaysMs_def)
  show ?thesis
  proof (cases "k < 5")
    case True
    then have l: "k < length retryDelaysMs" by (simp add: len)
    have r: "\<And>j. j < k \<Longrightarrow> retried (do (0 + j))" using assms(2) by simp
    have n: "\<not> retried (do (0 + k))" using assms(3) True by simp
    have m: "min k 4 = k" using True by simp
    have "Upload_loop None do 0 retryDelaysMs (0, [], None) [] =
       (fst (outcome (do k)), fst (snd (outcome (do k))),
        snd (snd (outcome (do k))), take k retryDelaysMs)"
      using Upload_loop_first_terminal [of k retryDelaysMs "do" 0 "(0, [], None)" "[]", OF l r n]
      by simp
    with True show ?thesis unfolding U m D by simp
  next
    case False
    with assms(1) have k: "k = 5" by simp
    have ne: "retryDelaysMs \<noteq> []" by (simp add: retryDelaysMs_def)
    have r: "\<And>j. j < length retryDelaysMs \<Longrightarrow> retried (do (0 + j))"
      using assms(2) k by (simp add: len)
    from assms(2) k have "retried (do 4)" by simp
    then have e: "snd (snd (outcome (do 4))) \<noteq> None" by (rule retried_outcome_error)
    have m: "min k 4 = 4" using k by simp
    have t: "take k retryDelaysMs = retryDelaysMs" using k by (simp add: len)
    have "Upload_loop None do 0 retryDelaysMs (0, [], None) [] =
       (fst (outcome (do 4)), fst (snd (outcome (do 4))),
        snd (snd (outcome (do 4))), retryDelaysMs)"
      using Upload_loop_all_retried [of retryDelaysMs "do" 0 "(0, [], None)" "[]", OF ne r]
      by (simp add: len)
    with e t show ?thesis unfolding U m D by simp
  qed
qed

theorem C7_upload_retry_witness:
  "retried (always_503 0) \<and> retried (always_503 1) \<and> retried (always_503 2)
   \<and> retried (always_503 3) \<and> retried (always_503 4)
   \<and> Upload False (Inr ''payload'') None always_503
       = (503, ''unavailable'', Some (HttpStatus 503 []), [100, 200, 200, 500, 0])
   \<and> retried (flaky_then_200 0) \<and> retried (flaky_then_200 1)
   \<and> \<not> retried (flaky_then_200 2)
   \<and> Upload False (Inr ''payload'') None flaky_then_200 = (200, ''ok'', None, [100, 200])
   \<and> \<not> retried (plain_404 0)
   \<and> Upload False (Inr ''payload'') None plain_404
       = (404, ''not found'', Some (HttpStatus 404 []), [])
   \<and> \<not> retried (partial_400 0)
   \<and> Upload False (Inr ''payload'') None partial_400
       = (400, ''{\"error\":\"some data points in the request failed validation\"}'', None, [])"
proof -
  have a: "\<forall>j<5. retried (always_503 j)"
    by (simp add: retried_def always_503_def)
  have oa: "outcome (always_503 4) = (503, ''unavailable'', Some (HttpStatus 503 []))"
    by (simp add: outcome_def always_503_def)
  have f: "\<forall>j<2. retried (flaky_then_200 j)"
    by (auto simp: retried_def flaky_then_200_def)
  have f2: "\<not> retried (flaky_then_200 2)"
    by (simp add: retried_def flaky_then_200_def)
  have "outcome (flaky_then_200 2) = (200, ''ok'', None)"
    by (simp add: outcome_def flaky_then_200_def)
  then have "outcome (flaky_then_200 (min 2 4)) = (200, ''ok'', None)"
    by simp
  then have of2: "fst (outcome (flaky_then_200 (min 2 4))) = 200"
      "fst (snd (outcome (flaky_then_200 (min 2 4)))) = ''ok''"
      "snd (snd (outcome (flaky_then_200 (min 2 4)))) = None"
    by simp_all
  have p: "\<not> retried (plain_404 0)"
    by (simp add: retried_def plain_404_def)
  have op: "outcome (plain_404 0) = (404, ''not found'', Some (HttpStatus 404 []))"
    by (simp add: outcome_def plain_404_def)
  have q: "\<not> retried (partial_400 0)"
    by (simp add: retried_def partial_400_def)
  have oq: "outcome (partial_400 0)
      = (400, ''{\"error\":\"some data points in the request failed validation\"}'', None)"
    by (simp add: outcome_def partial_400_def partial_failure_marker_def)
  have r1: "Upload False (Inr ''payload'') None always_503
       = (503, ''unavailable'', Some (HttpStatus 503 []), [100, 200, 200, 500, 0])"
    using C7_upload_retry [of 5 always_503 "''payload''"] a oa by simp
  have r2: "Upload False (Inr ''payload'') None flaky_then_200 = (200, ''ok'', None, [100, 200])"
  proof -
    have t: "take 2 [100, 200, 200, 500, 0::int] = [100, 200]"
      by (simp add: numeral_2_eq_2)
    from C7_upload_retry [of 2 flaky_then_200 "''payload''"] f f2
    have "Upload False (Inr ''payload'') None flaky_then_200 =
           (fst (outcome (flaky_then_200 (min 2 4))), fst (snd (outcome (flaky_then_200 (min 2 4)))),
            snd (snd (outcome (flaky_then_200 (min 2 4)))), take 2 [100, 200, 200, 500, 0])"
      by simp
    with of2 t show ?thesis by simp
  qed
  have r3: "Upload False (Inr ''payload'') None plain_404
       = (404, ''not found'', Some (HttpStatus 404 []), [])"
    using C7_upload_retry [of 0 plain_404 "''payload''"] p op by simp
  have r4: "Upload False (Inr ''payload'') None partial_400
       = (400, ''{\"error\":\"some data points in the request failed validation\"}'', None, [])"
    using C7_upload_retry [of 0 partial_400 "''payload''"] q oq by simp
  have a': "retried (always_503 0) \<and> retried (always_503 1) \<and> retried (always_503 2)
      \<and> retried (always_503 3) \<and> retried (always_503 4)"
    using a by simp
  have f': "retried (flaky_then_200 0) \<and> retried (flaky_then_200 1)"
    using f by simp
  from a' f' f2 p q r1 r2 r3 r4 show ?thesis by blast
qed

section \<open>Properties of the type lattice and of type resolution\<close>

lemma join_lawsD:
  assumes "join_laws j"
  shows "j a b = j b a" and "j a (j b c) = j (j a b) c" and "j a a = a"
  using assms unfolding join_laws_def by blast+

lemma GetCommonAncestorType_laws: "join_laws GetCommonAncestorType"
  by (simp add: join_laws_def GetCommonAncestorType_def)

lemma foldl_join_assoc:
  "join_laws j \<Longrightarrow> foldl j (j a b) ts = j a (foldl j b ts)"
proof (induction ts arbitrary: b)
  case Nil
  then show ?case by simp
next
  case (Cons t ts)
  have "foldl j (j a b) (t # ts) = foldl j (j a (j b t)) ts"
    using join_lawsD(2) [OF Cons.prems] by simp
  also have "\<dots> = j a (foldl j (j b t) ts)"
    by (rule Cons.IH [OF Cons.prems])
  finally show ?case by simp
qed

lemma foldl_join_absorbs_elem:
  "join_laws j \<Longrightarrow> x \<in> set (t # ts) \<Longrightarrow> j x (foldl j t ts) = foldl j t ts"
proof (induction ts arbitrary: t)
  case Nil
  then show ?case by (simp add: join_lawsD(3))
next
  case (Cons u us)
  note L = Cons.prems(1)
  consider "x = t" | "x = u" | "x \<in> set us" using Cons.prems(2) by auto
  then show ?case
  proof cases
    case 1
    have "foldl j t (u # us) = j t (foldl j u us)"
      by (simp add: foldl_join_assoc [OF L])
    moreover have "j t (j t (foldl j u us)) = j t (foldl j u us)"
      using join_lawsD(2) [OF L, of t t] join_lawsD(3) [OF L, of t] by simp
    ultimately show ?thesis using 1 by simp
  next
    case 2
    have "foldl j t (u # us) = foldl j (j u t) us"
      using join_lawsD(1) [OF L, of t u] by simp
    then have e: "foldl j t (u # us) = j u (foldl j t us)"
      by (simp add: foldl_join_assoc [OF L])
    moreover have "j u (j u (foldl j t us)) = j u (foldl j t us)"
      using join_lawsD(2) [OF L, of u u] join_lawsD(3) [OF L, of u] by simp
    ultimately show ?thesis using 2 by simp
  next
    case 3
    then have "x \<in> set (j t u # us)" by simp
    from Cons.IH [OF L this] show ?thesis by simp
  qed
qed

lemma foldl_join_absorbs_fold:
  "join_laws j \<Longrightarrow> (\<And>x. x \<in> set (t # ts) \<Longrightarrow> j x b = b) \<Longrightarrow> j (foldl j t ts) b = b"
proof (induction ts arbitrary: t)
  case Nil
  then show ?case by simp
next
  case (Cons u us)
  note L = Cons.prems(1)
  have tu: "j (j t u) b = b"
    using join_lawsD(2) [OF L, of t u b] Cons.prems(2) [of t] Cons.prems(2) [of u] by simp
  have "\<And>x. x \<in> set (j t u # us) \<Longrightarrow> j x b = b"
    using tu Cons.prems(2) by auto
  from Cons.IH [OF L this] show ?case by simp
qed

lemma foldl_join_set:
  assumes L: "join_laws j" and s: "set (t # ts) = set (u # us)"
  shows "foldl j t ts = foldl j u us"
proof -
  have "\<And>x. x \<in> set (t # ts) \<Longrightarrow> j x (foldl j u us) = foldl j u us"
    using foldl_join_absorbs_elem [OF L, of _ u us] s by blast
  then have 1: "j (foldl j t ts) (foldl j u us) = foldl j u us"
    by (rule foldl_join_absorbs_fold [OF L])
  have "\<And>x. x \<in> set (u # us) \<Longrightarrow> j x (foldl j t ts) = foldl j t ts"
    using foldl_join_absorbs_elem [OF L, of _ t ts] s by blast
  then have 2: "j (foldl j u us) (foldl j t ts) = foldl j t ts"
    by (rule foldl_join_absorbs_fold [OF L])
  from 1 2 join_lawsD(1) [OF L, of "foldl j t ts" "foldl j u us"] show ?thesis by simp
qed

lemma foldl_join_append:
  "join_laws j \<Longrightarrow> foldl j t (ts @ u # us) = j (foldl j t ts) (foldl j u us)"
  by (simp add: foldl_join_assoc)

lemma range_orderD:
  "range_order order \<Longrightarrow> set (order m) = dom m"
  "range_order order \<Longrightarrow> distinct (order m)"
  by (simp_all add: range_order_def)

lemma all_DataTypes: "set [UNKNOWN, BOOLEAN, INTEGER, FLOAT, TIMESTAMP, STRING] = UNIV"
proof -
  have "t \<in> set [UNKNOWN, BOOLEAN, INTEGER, FLOAT, TIMESTAMP, STRING]" for t
    by (cases t) simp_all
  then show ?thesis by blast
qed

lemma range_order_type_keys: "range_order type_keys"
proof -
  have d: "distinct [UNKNOWN, BOOLEAN, INTEGER, FLOAT, TIMESTAMP, STRING]"
    by simp
  have "distinct (type_keys m)" for m
    unfolding type_keys_def using d by (rule distinct_filter)
  moreover have "set (type_keys m) = dom m" for m
    unfolding type_keys_def set_filter all_DataTypes by simp
  ultimately show ?thesis by (simp add: range_order_def)
qed

lemma range_order_type_keys_rev: "range_order type_keys_rev"
  using range_order_type_keys by (simp add: range_order_def type_keys_rev_def)

lemma GetType_any_order:
  assumes L: "join_laws j" and o1: "range_order order1" and o2: "range_order order2"
  shows "GetType j order1 h f = GetType j order2 h f"
proof (cases "dataType f")
  case (Some d)
  then show ?thesis by (simp add: GetType_def GetType_body_def)
next
  case None
  let ?m = "deref h (typeOccurrence f)"
  have s: "set (order1 ?m) = set (order2 ?m)"
    using range_orderD(1) [OF o1] range_orderD(1) [OF o2] by simp
  show ?thesis
  proof (cases "order1 ?m")
    case Nil
    with s have "order2 ?m = []" by simp
    with Nil None show ?thesis by (simp add: GetType_def GetType_body_def)
  next
    case (Cons t ts)
    with s obtain u us where c2: "order2 ?m = u # us" by (cases "order2 ?m") auto
    from s Cons c2 have "set (t # ts) = set (u # us)" by simp
    from foldl_join_set [OF L this] None Cons c2 show ?thesis
      by (simp add: GetType_def GetType_body_def Let_def)
  qed
qed

text \<open>
  Claim C4.  The join is commutative, associative and idempotent, and string absorbs every
  kind.  Hence folding a non-empty list of kinds by pairwise join gives a result that
  depends on the set of its members only, and \<open>Field.GetType\<close> returns the same type
  whatever order the occurrence map is visited in.
\<close>

theorem C4_lattice_laws:
  "GetCommonAncestorType a b = GetCommonAncestorType b a
   \<and> GetCommonAncestorType a (GetCommonAncestorType b c)
       = GetCommonAncestorType (GetCommonAncestorType a b) c
   \<and> GetCommonAncestorType a a = a
   \<and> GetCommonAncestorType a STRING = STRING
   \<and> (set (t # ts) = set (u # us) \<longrightarrow>
        foldl GetCommonAncestorType t ts = foldl GetCommonAncestorType u us)
   \<and> (range_order order1 \<and> range_order order2 \<longrightarrow>
        GetType GetCommonAncestorType order1 h f = GetType GetCommonAncestorType order2 h f)"
proof (intro conjI impI)
  show "GetCommonAncestorType a b = GetCommonAncestorType b a"
    by (rule join_lawsD(1) [OF GetCommonAncestorType_laws])
  show "GetCommonAncestorType a (GetCommonAncestorType b c)
       = GetCommonAncestorType (GetCommonAncestorType a b) c"
    by (rule join_lawsD(2) [OF GetCommonAncestorType_laws])
  show "GetCommonAncestorType a a = a"
    by (rule join_lawsD(3) [OF GetCommonAncestorType_laws])
  show "GetCommonAncestorType a STRING = STRING"
    by (simp add: GetCommonAncestorType_def)
  show "foldl GetCommonAncestorType t ts = foldl GetCommonAncestorType u us"
    if "set (t # ts) = set (u # us)"
    using that by (rule foldl_join_set [OF GetCommonAncestorType_laws])
  show "GetType GetCommonAncestorType order1 h f = GetType GetCommonAncestorType order2 h f"
    if "range_order order1 \<and> range_order order2"
    using that by (simp add: GetType_any_order [OF GetCommonAncestorType_laws])
qed

theorem C4_lattice_laws_witness:
  "set [INTEGER, FLOAT, INTEGER] = set [FLOAT, INTEGER]
   \<and> foldl GetCommonAncestorType INTEGER [FLOAT, INTEGER] = STRING
   \<and> foldl GetCommonAncestorType FLOAT [INTEGER] = STRING
   \<and> range_order type_keys \<and> range_order type_keys_rev
   \<and> GetType GetCommonAncestorType type_keys store_dirty fld_dirty = STRING
   \<and> GetType GetCommonAncestorType type_keys_rev store_dirty fld_dirty = STRING"
proof -
  have s: "set [INTEGER, FLOAT, INTEGER] = set [FLOAT, INTEGER]"
    by auto
  have f: "foldl GetCommonAncestorType FLOAT [INTEGER] = STRING"
    by (simp add: GetCommonAncestorType_def)
  have g: "GetType GetCommonAncestorType type_keys_rev store_dirty fld_dirty = STRING"
    by (simp add: GetType_def GetType_body_def deref_def store_dirty_def fld_dirty_def
        type_keys_rev_def type_keys_def GetCommonAncestorType_def)
  from C4_lattice_laws [of INTEGER FLOAT STRING INTEGER "[FLOAT, INTEGER]" FLOAT "[INTEGER]"
      type_keys type_keys_rev store_dirty fld_dirty]
    s f g range_order_type_keys range_order_type_keys_rev
  show ?thesis by (simp add: GetCommonAncestorType_def)
qed

text \<open>
  Claim C5, at a field with no cached type and the occurrences integer and string.  The
  call returns the join, string, and the copy of the receiver inside the method holds it
  as its cached type at the return; the caller's field is the same after the call as
  before, its cached type still unset.
\<close>

theorem C5_GetType_cache_not_stored:
  "GetType_call GetCommonAncestorType type_keys store_dirty fld_dirty = (STRING, fld_dirty)
   \<and> dataType (snd (GetType_call GetCommonAncestorType type_keys store_dirty fld_dirty)) = None
   \<and> dataType (snd (GetType_body GetCommonAncestorType type_keys store_dirty fld_dirty))
       = Some STRING"
  by (simp add: GetType_call_def GetType_body_def deref_def store_dirty_def fld_dirty_def
      type_keys_def GetCommonAncestorType_def)

section \<open>Properties of Fields.Clone\<close>

lemma Clone_loop_sqlTypeSuggestion:
  "\<forall>n fld. clone n = Some fld \<longrightarrow> sqlTypeSuggestion fld = None \<Longrightarrow>
     \<forall>n fld. snd (Clone_loop order f h clone) n = Some fld \<longrightarrow> sqlTypeSuggestion fld = None"
proof (induction f arbitrary: h clone)
  case Nil
  then show ?case by simp
next
  case (Cons e f)
  obtain fieldName fieldPayload where e: "e = (fieldName, fieldPayload)" by (cases e)
  define c' where "c' = clone(fieldName \<mapsto>
              \<lparr>dataType = dataType fieldPayload, sqlTypeSuggestion = None,
               typeOccurrence = Some (length h)\<rparr>)"
  define h' where "h' = h @ [copy_occurrences (order (deref h (typeOccurrence fieldPayload)))
               (deref h (typeOccurrence fieldPayload)) Map.empty]"
  have "\<forall>n fld. c' n = Some fld \<longrightarrow> sqlTypeSuggestion fld = None"
    using Cons.prems by (auto simp: c'_def)
  then have "\<forall>n fld. snd (Clone_loop order f h' c') n = Some fld \<longrightarrow> sqlTypeSuggestion fld = None"
    by (rule Cons.IH)
  moreover have "Clone_loop order (e # f) h clone = Clone_loop order f h' c'"
    by (simp add: e Let_def c'_def h'_def)
  ultimately show ?case by simp
qed

lemma Clone_loop_dom:
  "dom (snd (Clone_loop order f h clone)) = dom clone \<union> fst ` set f"
proof (induction f arbitrary: h clone)
  case Nil
  then show ?case by simp
next
  case (Cons e f)
  obtain fieldName fieldPayload where e: "e = (fieldName, fieldPayload)" by (cases e)
  define c' where "c' = clone(fieldName \<mapsto>
              \<lparr>dataType = dataType fieldPayload, sqlTypeSuggestion = None,
               typeOccurrence = Some (length h)\<rparr>)"
  define h' where "h' = h @ [copy_occurrences (order (deref h (typeOccurrence fieldPayload)))
               (deref h (typeOccurrence fieldPayload)) Map.empty]"
  have "dom (snd (Clone_loop order f h' c')) = dom c' \<union> fst ` set f"
    by (rule Cons.IH)
  moreover have "Clone_loop order (e # f) h clone = Clone_loop order f h' c'"
    by (simp add: e Let_def c'_def h'_def)
  moreover have "dom c' = insert fieldName (dom clone)"
    by (simp add: c'_def)
  ultimately show ?case using e by simp
qed

lemma GetSuggestedSQLType_None:
  "sqlTypeSuggestion fld = None \<Longrightarrow> GetSuggestedSQLType fld dest = (SQLColumn_zero, False)"
  by (simp add: GetSuggestedSQLType_def)

text \<open>
  Claim C10.  Every field of a clone has no SQL type suggestion, whatever the field of the
  original carries, and \<open>GetSuggestedSQLType\<close> on it returns the empty column and false
  for every destination.
\<close>

theorem C10_clone_drops_suggestion:
  "\<forall>n \<in> fst ` set f.
     \<exists>fld. snd (Fields_Clone order f h) n = Some fld
       \<and> sqlTypeSuggestion fld = None
       \<and> (\<forall>dest. GetSuggestedSQLType fld dest = (SQLColumn_zero, False))"
proof
  fix n assume "n \<in> fst ` set f"
  then have "n \<in> dom (snd (Fields_Clone order f h))"
    by (simp add: Fields_Clone_def Clone_loop_dom)
  then obtain fld where c: "snd (Fields_Clone order f h) n = Some fld" by blast
  have "\<forall>n fld. (Map.empty :: Fields) n = Some fld \<longrightarrow> sqlTypeSuggestion fld = None"
    by simp
  from Clone_loop_sqlTypeSuggestion [OF this, of order f h] c have "sqlTypeSuggestion fld = None"
    by (simp add: Fields_Clone_def)
  with c show "\<exists>fld. snd (Fields_Clone order f h) n = Some fld
       \<and> sqlTypeSuggestion fld = None
       \<and> (\<forall>dest. GetSuggestedSQLType fld dest = (SQLColumn_zero, False))"
    by (simp add: GetSuggestedSQLType_None)
qed

theorem C10_clone_drops_suggestion_witness:
  "''a'' \<in> fst ` set [(''a'', fld_hint)]
   \<and> GetSuggestedSQLType fld_hint ''postgres''
       = (\<lparr>Type = ''jsonb'', ColumnType = ''json'', Override = True\<rparr>, True)
   \<and> GetSuggestedSQLType fld_hint ''mysql''
       = (\<lparr>Type = ''text'', ColumnType = ''string'', Override = True\<rparr>, True)
   \<and> (\<exists>fld. snd (Fields_Clone type_keys [(''a'', fld_hint)] store_hint) ''a'' = Some fld
         \<and> sqlTypeSuggestion fld = None
         \<and> GetSuggestedSQLType fld ''postgres'' = (SQLColumn_zero, False)
         \<and> GetSuggestedSQLType fld ''mysql'' = (SQLColumn_zero, False))"
proof -
  have m: "''a'' \<in> fst ` set [(''a'', fld_hint)]" by simp
  have o: "GetSuggestedSQLType fld_hint ''postgres''
       = (\<lparr>Type = ''jsonb'', ColumnType = ''json'', Override = True\<rparr>, True)"
    "GetSuggestedSQLType fld_hint ''mysql''
       = (\<lparr>Type = ''text'', ColumnType = ''string'', Override = True\<rparr>, True)"
    by (simp_all add: GetSuggestedSQLType_def fld_hint_def col_pg_def col_text_def)
  from C10_clone_drops_suggestion [of "[(''a'', fld_hint)]" type_keys store_hint] m
  obtain fld where "snd (Fields_Clone type_keys [(''a'', fld_hint)] store_hint) ''a'' = Some fld"
    and "sqlTypeSuggestion fld = None"
    and "\<forall>dest. GetSuggestedSQLType fld dest = (SQLColumn_zero, False)"
    by blast
  then have "\<exists>fld. snd (Fields_Clone type_keys [(''a'', fld_hint)] store_hint) ''a'' = Some fld
         \<and> sqlTypeSuggestion fld = None
         \<and> GetSuggestedSQLType fld ''postgres'' = (SQLColumn_zero, False)
         \<and> GetSuggestedSQLType fld ''mysql'' = (SQLColumn_zero, False)"
    by blast
  with m o show ?thesis by blast
qed

section \<open>The store: reading, writing, framing\<close>

lemma deref_append: "valid_ref h r \<Longrightarrow> deref (h @ xs) r = deref h r"
  by (cases r) (simp_all add: deref_def valid_ref_def nth_append)

lemma deref_update_other: "r \<noteq> Some a \<Longrightarrow> deref (h[a := m]) r = deref h r"
  by (cases r) (auto simp: deref_def)

lemma deref_update_same: "a < length h \<Longrightarrow> deref (h[a := m]) (Some a) = m"
  by (simp add: deref_def)

lemma deref_Some: "a < length h \<Longrightarrow> deref h (Some a) = h ! a"
  by (simp add: deref_def)

lemma deref_cong_nth:
  "length h' = length h \<Longrightarrow> (\<And>a. r = Some a \<Longrightarrow> h' ! a = h ! a) \<Longrightarrow> deref h' r = deref h r"
  by (cases r) (simp_all add: deref_def)

lemma GetType_cong:
  "deref h1 (typeOccurrence f) = deref h2 (typeOccurrence f) \<Longrightarrow>
     GetType j order h1 f = GetType j order h2 f"
  by (cases "dataType f") (simp_all add: GetType_def GetType_body_def)

lemma copy_occurrences_eq:
  "copy_occurrences ts src c = (\<lambda>t. if t \<in> set ts then src t else c t)"
  by (induction ts arbitrary: c) (auto simp: fun_eq_iff)

lemma copy_occurrences_all:
  "range_order order \<Longrightarrow> copy_occurrences (order src) src Map.empty = src"
proof -
  assume "range_order order"
  then have s: "set (order src) = dom src" by (simp add: range_order_def)
  have "(if t \<in> dom src then src t else None) = src t" for t
    by (cases "src t") auto
  then show ?thesis by (simp add: copy_occurrences_eq s fun_eq_iff)
qed

section \<open>Fields.Clone: what the clone holds\<close>

lemma Clone_loop_Cons:
  "Clone_loop order ((n, fld) # f) h clone =
     Clone_loop order f
       (h @ [copy_occurrences (order (deref h (typeOccurrence fld)))
               (deref h (typeOccurrence fld)) Map.empty])
       (clone(n \<mapsto> \<lparr>dataType = dataType fld, sqlTypeSuggestion = None,
                     typeOccurrence = Some (length h)\<rparr>))"
  by (simp add: Let_def)

lemma Clone_loop_store:
  "range_order order \<Longrightarrow> \<forall>e \<in> set f. valid_ref h (typeOccurrence (snd e)) \<Longrightarrow>
     fst (Clone_loop order f h clone) = h @ map (\<lambda>e. deref h (typeOccurrence (snd e))) f"
proof (induction f arbitrary: h clone)
  case Nil
  then show ?case by simp
next
  case (Cons e f)
  obtain n fld where e: "e = (n, fld)" by (cases e)
  let ?src = "deref h (typeOccurrence fld)"
  have c: "copy_occurrences (order ?src) ?src Map.empty = ?src"
    by (rule copy_occurrences_all [OF Cons.prems(1)])
  have v: "\<forall>e \<in> set f. valid_ref (h @ [?src]) (typeOccurrence (snd e))"
    using Cons.prems(2) by (auto simp: valid_ref_def split: option.splits)
  have "fst (Clone_loop order f (h @ [?src]) clone') =
          (h @ [?src]) @ map (\<lambda>e. deref (h @ [?src]) (typeOccurrence (snd e))) f" for clone'
    by (rule Cons.IH [OF Cons.prems(1) v])
  moreover have "map (\<lambda>e. deref (h @ [?src]) (typeOccurrence (snd e))) f =
          map (\<lambda>e. deref h (typeOccurrence (snd e))) f"
    using Cons.prems(2) by (simp add: deref_append)
  ultimately show ?case by (simp add: e Clone_loop_Cons c)
qed

lemma Clone_loop_other_name:
  "n \<notin> fst ` set f \<Longrightarrow> snd (Clone_loop order f h clone) n = clone n"
proof (induction f arbitrary: h clone)
  case Nil
  then show ?case by simp
next
  case (Cons e f)
  obtain m fld where e: "e = (m, fld)" by (cases e)
  from Cons.prems e have ne: "n \<noteq> m" and nf: "n \<notin> fst ` set f" by auto
  show ?case
    unfolding e Clone_loop_Cons using Cons.IH [OF nf] ne by simp
qed

lemma Clone_loop_field:
  "distinct (map fst f) \<Longrightarrow> i < length f \<Longrightarrow> f ! i = (n, fld) \<Longrightarrow>
     snd (Clone_loop order f h clone) n =
       Some \<lparr>dataType = dataType fld, sqlTypeSuggestion = None,
             typeOccurrence = Some (length h + i)\<rparr>"
proof (induction f arbitrary: h clone i)
  case Nil
  then show ?case by simp
next
  case (Cons e f)
  obtain m fld0 where e: "e = (m, fld0)" by (cases e)
  show ?case
  proof (cases i)
    case 0
    with Cons.prems e have m: "m = n" "fld0 = fld" by simp_all
    from Cons.prems(1) e m have "n \<notin> fst ` set f" by simp
    from Clone_loop_other_name [OF this] show ?thesis
      unfolding e Clone_loop_Cons using m 0 by simp
  next
    case (Suc i')
    from Cons.prems Suc have d: "distinct (map fst f)" and l: "i' < length f"
      and f: "f ! i' = (n, fld)" by simp_all
    from Cons.IH [OF d l f] show ?thesis
      unfolding e Clone_loop_Cons using Suc by simp
  qed
qed

section \<open>Fields.Merge: what it may write\<close>

lemma Field_Merge_loop_frame:
  "Field_Merge_loop ts h f = Inr (h', f') \<Longrightarrow>
     length h' = length h \<and> typeOccurrence f' = typeOccurrence f
     \<and> sqlTypeSuggestion f' = sqlTypeSuggestion f
     \<and> (\<forall>b. typeOccurrence f \<noteq> Some b \<longrightarrow> h' ! b = h ! b)"
proof (induction ts arbitrary: h f)
  case Nil
  then show ?case by simp
next
  case (Cons t ts)
  show ?case
  proof (cases "t \<in> dom (deref h (typeOccurrence f))")
    case True
    with Cons.prems have "Field_Merge_loop ts h f = Inr (h', f')" by simp
    from Cons.IH [OF this] show ?thesis .
  next
    case False
    with Cons.prems obtain a where a: "typeOccurrence f = Some a"
      by (cases "typeOccurrence f") auto
    with False Cons.prems have
      "Field_Merge_loop ts (h[a := (h ! a)(t \<mapsto> True)]) (f\<lparr>dataType := None\<rparr>) = Inr (h', f')"
      by simp
    from Cons.IH [OF this] a show ?thesis by auto
  qed
qed

lemma Fields_Merge_Some:
  "Fields_Merge order other h (Some m) =
     (case Fields_Merge_map order other h m of
        Inl p \<Rightarrow> Inl p
      | Inr (h', m') \<Rightarrow> Inr (h', Some m'))"
proof (induction other arbitrary: h m)
  case Nil
  then show ?case by simp
next
  case (Cons e other)
  obtain n g where e: "e = (n, g)" by (cases e)
  show ?case
  proof (cases "m n")
    case None
    define m1 where "m1 = m(n \<mapsto> g)"
    from None have "Fields_Merge order ((n, g) # other) h (Some m) =
        Fields_Merge order other h (Some m1)"
      and "Fields_Merge_map order ((n, g) # other) h m = Fields_Merge_map order other h m1"
      by (simp_all add: m1_def)
    with Cons.IH [of h m1] show ?thesis unfolding e by simp
  next
    case (Some cur)
    show ?thesis
    proof (cases "Field_Merge order h cur g")
      case (Inl p)
      with Some show ?thesis unfolding e by simp
    next
      case (Inr r)
      obtain h1 cur' where r: "r = (h1, cur')" by (cases r)
      define m1 where "m1 = m(n \<mapsto> cur')"
      from Some Inr r have "Fields_Merge order ((n, g) # other) h (Some m) =
          Fields_Merge order other h1 (Some m1)"
        and "Fields_Merge_map order ((n, g) # other) h m = Fields_Merge_map order other h1 m1"
        by (simp_all add: m1_def)
      with Cons.IH [of h1 m1] show ?thesis unfolding e by simp
    qed
  qed
qed

lemma Fields_Merge_SomeD:
  "Fields_Merge order other h (Some m) = Inr (h', r) \<Longrightarrow>
     \<exists>m'. r = Some m' \<and> Fields_Merge_map order other h m = Inr (h', m')"
  unfolding Fields_Merge_Some by (cases "Fields_Merge_map order other h m") auto

lemma Fields_Merge_SomeI:
  "Fields_Merge_map order other h m = Inr (h', m') \<Longrightarrow>
     Fields_Merge order other h (Some m) = Inr (h', Some m')"
  unfolding Fields_Merge_Some by simp

lemma Fields_Merge_None:
  "Fields_Merge order other h None = (if other = [] then Inr (h, None) else Inl NilMapWrite)"
proof (cases other)
  case Nil
  then show ?thesis by simp
next
  case (Cons e other')
  obtain n g where "e = (n, g)" by (cases e)
  with Cons show ?thesis by simp
qed

lemma Fields_Merge_frame:
  "distinct (map fst other) \<Longrightarrow> Fields_Merge_map order other h f = Inr (h', f') \<Longrightarrow>
     length h' = length h
     \<and> (\<forall>b. (\<forall>e \<in> set other. \<forall>fld. f (fst e) = Some fld \<longrightarrow> typeOccurrence fld \<noteq> Some b)
           \<longrightarrow> h' ! b = h ! b)"
proof (induction other arbitrary: h f)
  case Nil
  then show ?case by simp
next
  case (Cons e other)
  obtain n ofld where e: "e = (n, ofld)" by (cases e)
  from Cons.prems(1) e have d: "distinct (map fst other)" and nn: "n \<notin> fst ` set other"
    by simp_all
  show ?case
  proof (cases "f n")
    case None
    with Cons.prems(2) e have m: "Fields_Merge_map order other h (f(n \<mapsto> ofld)) = Inr (h', f')"
      by simp
    have same: "\<And>e'. e' \<in> set other \<Longrightarrow> (f(n \<mapsto> ofld)) (fst e') = f (fst e')"
      using nn by auto
    from Cons.IH [OF d m] same show ?thesis by auto
  next
    case (Some cur)
    with Cons.prems(2) e obtain h1 cur' where
      fm: "Field_Merge order h cur ofld = Inr (h1, cur')"
      and m: "Fields_Merge_map order other h1 (f(n \<mapsto> cur')) = Inr (h', f')"
      by (auto split: sum.splits)
    from Field_Merge_loop_frame [OF fm [unfolded Field_Merge_def]]
    have l1: "length h1 = length h"
      and fr1: "\<And>b. typeOccurrence cur \<noteq> Some b \<Longrightarrow> h1 ! b = h ! b"
      by simp_all
    have same: "\<And>e'. e' \<in> set other \<Longrightarrow> (f(n \<mapsto> cur')) (fst e') = f (fst e')"
      using nn by auto
    from Cons.IH [OF d m] have l2: "length h' = length h1"
      and fr2: "\<And>b. (\<forall>e' \<in> set other. \<forall>fld. (f(n \<mapsto> cur')) (fst e') = Some fld \<longrightarrow>
                        typeOccurrence fld \<noteq> Some b) \<Longrightarrow> h' ! b = h1 ! b"
      by simp_all
    show ?thesis
    proof (intro conjI allI impI)
      show "length h' = length h" using l1 l2 by simp
    next
      fix b
      assume A: "\<forall>e' \<in> set (e # other). \<forall>fld. f (fst e') = Some fld \<longrightarrow>
                   typeOccurrence fld \<noteq> Some b"
      then have "typeOccurrence cur \<noteq> Some b" using Some e by auto
      then have 1: "h1 ! b = h ! b" by (rule fr1)
      have "\<forall>e' \<in> set other. \<forall>fld. (f(n \<mapsto> cur')) (fst e') = Some fld \<longrightarrow>
               typeOccurrence fld \<noteq> Some b"
        using A same by auto
      then have "h' ! b = h1 ! b" by (rule fr2)
      with 1 show "h' ! b = h ! b" by simp
    qed
  qed
qed


section \<open>Fields.Clone: independence of the clone\<close>

lemma Fields_Clone_store:
  assumes "range_order order" and "\<forall>e \<in> set f. valid_ref h (typeOccurrence (snd e))"
    and "Fields_Clone order f h = (h', c)"
  shows "h' = h @ map (\<lambda>e. deref h (typeOccurrence (snd e))) f"
  using Clone_loop_store [OF assms(1,2), of Map.empty] assms(3)
  by (simp add: Fields_Clone_def)

lemma Fields_Clone_field:
  assumes "distinct (map fst f)" and "Fields_Clone order f h = (h', c)"
    and "c n = Some cf"
  shows "\<exists>i fld. i < length f \<and> f ! i = (n, fld)
           \<and> cf = \<lparr>dataType = dataType fld, sqlTypeSuggestion = None,
                    typeOccurrence = Some (length h + i)\<rparr>"
proof -
  have c: "c = snd (Clone_loop order f h Map.empty)"
    using assms(2) by (simp add: Fields_Clone_def)
  have "n \<in> fst ` set f"
  proof (rule ccontr)
    assume "n \<notin> fst ` set f"
    from Clone_loop_other_name [OF this, of order h Map.empty] c assms(3)
    show False by simp
  qed
  then obtain fld where "(n, fld) \<in> set f" by auto
  then obtain i where i: "i < length f" "f ! i = (n, fld)"
    by (auto simp: in_set_conv_nth)
  from Clone_loop_field [OF assms(1) i, of order h Map.empty] c assms(3)
  have "cf = \<lparr>dataType = dataType fld, sqlTypeSuggestion = None,
              typeOccurrence = Some (length h + i)\<rparr>"
    by simp
  with i show ?thesis by blast
qed

text \<open>
  Claim C8.  For a \<open>Fields\<close> value whose fields hold valid map references, \<open>Clone\<close>
  returns a map with the same names in which every field has an occurrence map of its own:
  a newly allocated map (its address is not an address of the store before the call),
  different for different names, with the content and the cached type of the original
  field; the maps that existed before are as they were.  Hence writing any content to a
  map of the clone (adding or removing kinds) changes no occurrence set and no resolved
  type of the original, writing to a map that existed before changes none of the clone,
  merging any other \<open>Fields\<close> into the clone changes none of the original, and merging
  any other \<open>Fields\<close> into the original (nil or not) changes none of the clone.
\<close>

theorem C8_clone_independent:
  assumes dist: "distinct (map fst f)"
    and valid: "\<forall>e \<in> set f. valid_ref h (typeOccurrence (snd e))"
    and ro: "range_order order"
    and FC: "Fields_Clone order f h = (h', c)"
  shows "dom c = fst ` set f
    \<and> (\<forall>n fld. (n, fld) \<in> set f \<longrightarrow>
          (\<exists>cf a. c n = Some cf \<and> typeOccurrence cf = Some a \<and> length h \<le> a \<and> a < length h'
             \<and> deref h' (Some a) = deref h (typeOccurrence fld)
             \<and> dataType cf = dataType fld))
    \<and> (\<forall>n m cf cg. c n = Some cf \<and> c m = Some cg \<and> n \<noteq> m \<longrightarrow>
          typeOccurrence cf \<noteq> typeOccurrence cg)
    \<and> take (length h) h' = h
    \<and> (\<forall>n cf a m e. c n = Some cf \<and> typeOccurrence cf = Some a \<and> e \<in> set f \<longrightarrow>
          deref (h'[a := m]) (typeOccurrence (snd e)) = deref h (typeOccurrence (snd e))
          \<and> GetType j o1 (h'[a := m]) (snd e) = GetType j o1 h (snd e))
    \<and> (\<forall>b m n cf. b < length h \<and> c n = Some cf \<longrightarrow>
          deref (h'[b := m]) (typeOccurrence cf) = deref h' (typeOccurrence cf)
          \<and> GetType j o1 (h'[b := m]) cf = GetType j o1 h' cf)
    \<and> (\<forall>other o2 h2 c2 e.
          distinct (map fst other) \<and> Fields_Merge o2 other h' (Some c) = Inr (h2, c2)
          \<and> e \<in> set f \<longrightarrow>
          deref h2 (typeOccurrence (snd e)) = deref h (typeOccurrence (snd e))
          \<and> GetType j o1 h2 (snd e) = GetType j o1 h (snd e))
    \<and> (\<forall>other o2 h2 f2 r n cf.
          distinct (map fst other) \<and> (r = Some (map_of f) \<or> (r = None \<and> f = []))
          \<and> Fields_Merge o2 other h' r = Inr (h2, f2) \<and> c n = Some cf \<longrightarrow>
          deref h2 (typeOccurrence cf) = deref h' (typeOccurrence cf)
          \<and> GetType j o1 h2 cf = GetType j o1 h' cf)"
proof -
  note h' = Fields_Clone_store [OF ro valid FC]
  note K = Fields_Clone_field [OF dist FC]
  have len: "length h' = length h + length f" by (simp add: h')
  have old: "deref h' r = deref h r" if "valid_ref h r" for r
    using that by (simp add: h' deref_append)
  have cl_addr: "\<exists>a. typeOccurrence cf = Some a \<and> length h \<le> a \<and> a < length h'"
    if "c n = Some cf" for n cf
    using K [OF that] len by auto
  have orig_addr: "typeOccurrence (snd e) \<noteq> Some a" if "e \<in> set f" "length h \<le> a" for e a
    using valid that by (auto simp: valid_ref_def split: option.splits)

  have A: "dom c = fst ` set f"
    using Clone_loop_dom [of order f h Map.empty] FC by (simp add: Fields_Clone_def)

  have B: "\<exists>cf a. c n = Some cf \<and> typeOccurrence cf = Some a \<and> length h \<le> a \<and> a < length h'
             \<and> deref h' (Some a) = deref h (typeOccurrence fld) \<and> dataType cf = dataType fld"
    if "(n, fld) \<in> set f" for n fld
  proof -
    from that obtain i where i: "i < length f" "f ! i = (n, fld)"
      by (auto simp: in_set_conv_nth)
    have c: "c = snd (Clone_loop order f h Map.empty)"
      using FC by (simp add: Fields_Clone_def)
    have cn: "c n = Some \<lparr>dataType = dataType fld, sqlTypeSuggestion = None,
                          typeOccurrence = Some (length h + i)\<rparr>"
      unfolding c by (rule Clone_loop_field [OF dist i])
    have "deref h' (Some (length h + i)) = h' ! (length h + i)"
      using i(1) len by (simp add: deref_Some)
    also have "\<dots> = deref h (typeOccurrence fld)"
      using i by (simp add: h' nth_append)
    finally have "deref h' (Some (length h + i)) = deref h (typeOccurrence fld)" .
    with cn i(1) len show ?thesis by simp
  qed

  have C: "typeOccurrence cf \<noteq> typeOccurrence cg"
    if "c n = Some cf" "c m = Some cg" "n \<noteq> m" for n m cf cg
  proof -
    from K [OF that(1)] obtain i fld where i: "i < length f" "f ! i = (n, fld)"
      "typeOccurrence cf = Some (length h + i)" by auto
    from K [OF that(2)] obtain k fld' where k: "k < length f" "f ! k = (m, fld')"
      "typeOccurrence cg = Some (length h + k)" by auto
    from i k that(3) have "i \<noteq> k" by auto
    with i(3) k(3) show ?thesis by simp
  qed

  have D: "take (length h) h' = h" by (simp add: h')

  have E: "deref (h'[a := m]) (typeOccurrence (snd e)) = deref h (typeOccurrence (snd e))
          \<and> GetType j o1 (h'[a := m]) (snd e) = GetType j o1 h (snd e)"
    if "c n = Some cf" "typeOccurrence cf = Some a" "e \<in> set f" for n cf a m e
  proof -
    from cl_addr [OF that(1)] that(2) have "length h \<le> a" by simp
    from orig_addr [OF that(3) this]
    have "deref (h'[a := m]) (typeOccurrence (snd e)) = deref h' (typeOccurrence (snd e))"
      by (rule deref_update_other)
    also have "\<dots> = deref h (typeOccurrence (snd e))"
      using valid that(3) by (simp add: old)
    finally have 1: "deref (h'[a := m]) (typeOccurrence (snd e)) = deref h (typeOccurrence (snd e))" .
    from 1 GetType_cong [OF 1] show ?thesis by simp
  qed

  have F: "deref (h'[b := m]) (typeOccurrence cf) = deref h' (typeOccurrence cf)
          \<and> GetType j o1 (h'[b := m]) cf = GetType j o1 h' cf"
    if "b < length h" "c n = Some cf" for b m n cf
  proof -
    from cl_addr [OF that(2)] that(1) have "typeOccurrence cf \<noteq> Some b" by auto
    then have 1: "deref (h'[b := m]) (typeOccurrence cf) = deref h' (typeOccurrence cf)"
      by (rule deref_update_other)
    from 1 GetType_cong [OF 1] show ?thesis by simp
  qed

  have G: "deref h2 (typeOccurrence (snd e)) = deref h (typeOccurrence (snd e))
          \<and> GetType j o1 h2 (snd e) = GetType j o1 h (snd e)"
    if "distinct (map fst other)" "Fields_Merge o2 other h' (Some c) = Inr (h2, c2)" "e \<in> set f"
    for other o2 h2 c2 e
  proof -
    from Fields_Merge_SomeD [OF that(2)] obtain m2 where
      mm: "Fields_Merge_map o2 other h' c = Inr (h2, m2)" by blast
    from Fields_Merge_frame [OF that(1) mm] have l: "length h2 = length h'"
      and fr: "\<And>b. (\<forall>e' \<in> set other. \<forall>fld. c (fst e') = Some fld \<longrightarrow>
                    typeOccurrence fld \<noteq> Some b) \<Longrightarrow> h2 ! b = h' ! b"
      by simp_all
    have "h2 ! b = h' ! b" if "typeOccurrence (snd e) = Some b" for b
    proof (rule fr, intro ballI allI impI)
      fix e' fld assume "c (fst e') = Some fld"
      from cl_addr [OF this] obtain a where a: "typeOccurrence fld = Some a" "length h \<le> a"
        by auto
      from orig_addr [OF \<open>e \<in> set f\<close> a(2)] that a(1)
      show "typeOccurrence fld \<noteq> Some b" by auto
    qed
    then have "deref h2 (typeOccurrence (snd e)) = deref h' (typeOccurrence (snd e))"
      using l by (intro deref_cong_nth) simp_all
    also have "\<dots> = deref h (typeOccurrence (snd e))"
      using valid that(3) by (simp add: old)
    finally have 1: "deref h2 (typeOccurrence (snd e)) = deref h (typeOccurrence (snd e))" .
    from 1 GetType_cong [OF 1] show ?thesis by simp
  qed

  have H: "deref h2 (typeOccurrence cf) = deref h' (typeOccurrence cf)
          \<and> GetType j o1 h2 cf = GetType j o1 h' cf"
    if "distinct (map fst other)" "r = Some (map_of f) \<or> (r = None \<and> f = [])"
      "Fields_Merge o2 other h' r = Inr (h2, f2)" "c n = Some cf" for other o2 h2 f2 r n cf
  proof -
    have "n \<in> dom c" using that(4) by blast
    then have "f \<noteq> []" using A by auto
    with that(2) have r: "r = Some (map_of f)" by simp
    from Fields_Merge_SomeD [OF that(3) [unfolded r]] obtain m2 where
      mm: "Fields_Merge_map o2 other h' (map_of f) = Inr (h2, m2)" by blast
    from Fields_Merge_frame [OF that(1) mm] have l: "length h2 = length h'"
      and fr: "\<And>b. (\<forall>e' \<in> set other. \<forall>fld. map_of f (fst e') = Some fld \<longrightarrow>
                    typeOccurrence fld \<noteq> Some b) \<Longrightarrow> h2 ! b = h' ! b"
      by simp_all
    have "h2 ! a = h' ! a" if "typeOccurrence cf = Some a" for a
    proof (rule fr, intro ballI allI impI)
      fix e' fld assume "map_of f (fst e') = Some fld"
      then have "(fst e', fld) \<in> set f" by (rule map_of_SomeD)
      moreover from cl_addr [OF \<open>c n = Some cf\<close>] that have "length h \<le> a" by simp
      ultimately show "typeOccurrence fld \<noteq> Some a"
        using orig_addr [of "(fst e', fld)" a] by simp
    qed
    then have 1: "deref h2 (typeOccurrence cf) = deref h' (typeOccurrence cf)"
      using l by (intro deref_cong_nth) simp_all
    from 1 GetType_cong [OF 1] show ?thesis by simp
  qed

  show ?thesis
  proof (intro conjI)
    show "dom c = fst ` set f" by (rule A)
    show "\<forall>n fld. (n, fld) \<in> set f \<longrightarrow>
          (\<exists>cf a. c n = Some cf \<and> typeOccurrence cf = Some a \<and> length h \<le> a \<and> a < length h'
             \<and> deref h' (Some a) = deref h (typeOccurrence fld)
             \<and> dataType cf = dataType fld)"
      by (intro allI impI, rule B)
    show "\<forall>n m cf cg. c n = Some cf \<and> c m = Some cg \<and> n \<noteq> m \<longrightarrow>
          typeOccurrence cf \<noteq> typeOccurrence cg"
      by (intro allI impI, elim conjE, rule C)
    show "take (length h) h' = h" by (rule D)
    show "\<forall>n cf a m e. c n = Some cf \<and> typeOccurrence cf = Some a \<and> e \<in> set f \<longrightarrow>
          deref (h'[a := m]) (typeOccurrence (snd e)) = deref h (typeOccurrence (snd e))
          \<and> GetType j o1 (h'[a := m]) (snd e) = GetType j o1 h (snd e)"
      by (intro allI impI, elim conjE, rule E)
    show "\<forall>b m n cf. b < length h \<and> c n = Some cf \<longrightarrow>
          deref (h'[b := m]) (typeOccurrence cf) = deref h' (typeOccurrence cf)
          \<and> GetType j o1 (h'[b := m]) cf = GetType j o1 h' cf"
      by (intro allI impI, elim conjE, rule F)
    show "\<forall>other o2 h2 c2 e.
          distinct (map fst other) \<and> Fields_Merge o2 other h' (Some c) = Inr (h2, c2)
          \<and> e \<in> set f \<longrightarrow>
          deref h2 (typeOccurrence (snd e)) = deref h (typeOccurrence (snd e))
          \<and> GetType j o1 h2 (snd e) = GetType j o1 h (snd e)"
      by (intro allI impI, elim conjE, rule G)
    show "\<forall>other o2 h2 f2 r n cf.
          distinct (map fst other) \<and> (r = Some (map_of f) \<or> (r = None \<and> f = []))
          \<and> Fields_Merge o2 other h' r = Inr (h2, f2) \<and> c n = Some cf \<longrightarrow>
          deref h2 (typeOccurrence cf) = deref h' (typeOccurrence cf)
          \<and> GetType j o1 h2 cf = GetType j o1 h' cf"
      by (intro allI impI, elim conjE, rule H)
  qed
qed


lemma Fields_Clone_fields_ab:
  "Fields_Clone type_keys fields_ab store_ab =
     (store_ab @ [[INTEGER \<mapsto> True], [STRING \<mapsto> True]],
      [''a'' \<mapsto> \<lparr>dataType = Some INTEGER, sqlTypeSuggestion = None, typeOccurrence = Some 2\<rparr>,
       ''b'' \<mapsto> \<lparr>dataType = Some STRING, sqlTypeSuggestion = None, typeOccurrence = Some 3\<rparr>])"
  by (simp add: Fields_Clone_def fields_ab_def fld_a_def fld_b_def Let_def
      copy_occurrences_all [OF range_order_type_keys] deref_def store_ab_def
      numeral_2_eq_2 numeral_3_eq_3)

theorem C8_clone_independent_witness:
  "distinct (map fst fields_ab)
   \<and> valid_ref store_ab (typeOccurrence fld_a) \<and> valid_ref store_ab (typeOccurrence fld_b)
   \<and> range_order type_keys
   \<and> dom (snd (Fields_Clone type_keys fields_ab store_ab)) = {''a'', ''b''}
   \<and> take 2 (fst (Fields_Clone type_keys fields_ab store_ab)) = store_ab
   \<and> (\<exists>h2 c2. Fields_Merge type_keys fields_a_string
                 (fst (Fields_Clone type_keys fields_ab store_ab))
                 (Some (snd (Fields_Clone type_keys fields_ab store_ab))) = Inr (h2, c2)
         \<and> dom (deref h2 (Some 2)) = {INTEGER, STRING}
         \<and> deref h2 (typeOccurrence fld_a) = deref store_ab (typeOccurrence fld_a)
         \<and> dom (deref store_ab (typeOccurrence fld_a)) = {INTEGER}
         \<and> GetType GetCommonAncestorType type_keys h2 fld_a = INTEGER)"
proof -
  let ?h' = "fst (Fields_Clone type_keys fields_ab store_ab)"
  let ?c = "snd (Fields_Clone type_keys fields_ab store_ab)"
  have dist: "distinct (map fst fields_ab)" by (simp add: fields_ab_def)
  have va: "valid_ref store_ab (typeOccurrence fld_a)"
    and vb: "valid_ref store_ab (typeOccurrence fld_b)"
    by (simp_all add: valid_ref_def store_ab_def fld_a_def fld_b_def)
  then have valid: "\<forall>e \<in> set fields_ab. valid_ref store_ab (typeOccurrence (snd e))"
    by (simp add: fields_ab_def)
  have FC: "Fields_Clone type_keys fields_ab store_ab = (?h', ?c)" by simp
  have l: "length store_ab = 2" by (simp add: store_ab_def)
  have d1: "distinct (map fst fields_a_string)" by (simp add: fields_a_string_def)
  have ea: "(''a'', fld_a) \<in> set fields_ab" by (simp add: fields_ab_def)
  define h2 where "h2 = (store_ab @ [[INTEGER \<mapsto> True], [STRING \<mapsto> True]])
                          [2 := [INTEGER \<mapsto> True, STRING \<mapsto> True]]"
  define c2 :: Fields where "c2 =
      [''a'' \<mapsto> \<lparr>dataType = None, sqlTypeSuggestion = None, typeOccurrence = Some 2\<rparr>,
       ''b'' \<mapsto> \<lparr>dataType = Some STRING, sqlTypeSuggestion = None, typeOccurrence = Some 3\<rparr>]"
  have k: "type_keys [STRING \<mapsto> True] = [STRING]" by (simp add: type_keys_def)
  have "Fields_Merge_map type_keys fields_a_string ?h' ?c = Inr (h2, c2)"
    unfolding Fields_Clone_fields_ab fst_conv snd_conv
    by (simp add: fields_a_string_def fld_b_def Field_Merge_def
        deref_def store_ab_def k h2_def c2_def fun_upd_twist)
  then have M: "Fields_Merge type_keys fields_a_string ?h' (Some ?c) = Inr (h2, Some c2)"
    by (rule Fields_Merge_SomeI)
  have dh2: "dom (deref h2 (Some 2)) = {INTEGER, STRING}"
    by (auto simp: h2_def deref_def store_ab_def)
  have orig: "dom (deref store_ab (typeOccurrence fld_a)) = {INTEGER}"
    by (simp add: deref_def store_ab_def fld_a_def)
  have ga: "GetType GetCommonAncestorType type_keys store_ab fld_a = INTEGER"
    by (simp add: GetType_def GetType_body_def fld_a_def)
  note T = C8_clone_independent [OF dist valid range_order_type_keys FC,
      of GetCommonAncestorType type_keys]
  note A = T [THEN conjunct1]
  note D = T [THEN conjunct2, THEN conjunct2, THEN conjunct2, THEN conjunct1]
  note G = T [THEN conjunct2, THEN conjunct2, THEN conjunct2, THEN conjunct2, THEN conjunct2,
      THEN conjunct2, THEN conjunct1]
  from G d1 M ea have
    "deref h2 (typeOccurrence (snd (''a'', fld_a))) = deref store_ab (typeOccurrence (snd (''a'', fld_a)))
     \<and> GetType GetCommonAncestorType type_keys h2 (snd (''a'', fld_a))
         = GetType GetCommonAncestorType type_keys store_ab (snd (''a'', fld_a))"
    by blast
  then have R: "deref h2 (typeOccurrence fld_a) = deref store_ab (typeOccurrence fld_a)"
    "GetType GetCommonAncestorType type_keys h2 fld_a = INTEGER"
    using ga by simp_all
  have A': "dom ?c = {''a'', ''b''}" using A by (auto simp: fields_ab_def)
  have D': "take 2 ?h' = store_ab" using D l by simp
  from dist va vb range_order_type_keys A' D' M dh2 R orig show ?thesis by blast
qed

section \<open>Field.Merge and Fields.Merge: what they compute\<close>

lemma add_occurrences_empty: "add_occurrences m {} = m"
  by (simp add: add_occurrences_def)

lemma add_occurrences_insert_old:
  "t \<in> dom m \<Longrightarrow> add_occurrences m (insert t S) = add_occurrences m S"
  by (auto simp: add_occurrences_def fun_eq_iff)

lemma add_occurrences_insert_new:
  "m t = None \<Longrightarrow> add_occurrences (m(t \<mapsto> True)) S = add_occurrences m (insert t S)"
  by (auto simp: add_occurrences_def fun_eq_iff)

lemma dom_add_occurrences: "dom (add_occurrences m S) = dom m \<union> S"
  by (auto simp: add_occurrences_def dom_def)

lemma add_occurrences_subset: "S \<subseteq> dom m \<Longrightarrow> add_occurrences m S = m"
  by (auto simp: add_occurrences_def fun_eq_iff)

lemma Field_Merge_loop_result:
  "typeOccurrence f = Some a \<Longrightarrow> a < length h \<Longrightarrow>
     Field_Merge_loop ts h f =
       Inr (h[a := add_occurrences (h ! a) (set ts)],
            f\<lparr>dataType := if set ts \<subseteq> dom (h ! a) then dataType f else None\<rparr>)"
proof (induction ts arbitrary: h f)
  case Nil
  then show ?case by (simp add: add_occurrences_empty)
next
  case (Cons t ts)
  note a = Cons.prems
  have d: "deref h (typeOccurrence f) = h ! a"
    using a by (simp add: deref_def)
  show ?case
  proof (cases "t \<in> dom (h ! a)")
    case True
    have "Field_Merge_loop (t # ts) h f = Field_Merge_loop ts h f"
      using True d by simp
    also have "\<dots> = Inr (h[a := add_occurrences (h ! a) (set ts)],
            f\<lparr>dataType := if set ts \<subseteq> dom (h ! a) then dataType f else None\<rparr>)"
      by (rule Cons.IH [OF a])
    finally show ?thesis
      using True by (simp add: add_occurrences_insert_old)
  next
    case False
    let ?h1 = "h[a := (h ! a)(t \<mapsto> True)]"
    let ?f1 = "f\<lparr>dataType := None\<rparr>"
    have n: "(h ! a) t = None" using False by (simp add: domIff)
    have "Field_Merge_loop (t # ts) h f = Field_Merge_loop ts ?h1 ?f1"
      using False d a by simp
    also have "\<dots> = Inr (?h1[a := add_occurrences (?h1 ! a) (set ts)],
            ?f1\<lparr>dataType := if set ts \<subseteq> dom (?h1 ! a) then dataType ?f1 else None\<rparr>)"
      by (rule Cons.IH) (use a in simp_all)
    finally show ?thesis
      using False a n by (simp add: add_occurrences_insert_new)
  qed
qed

lemma Field_Merge_result:
  assumes "range_order order" and "typeOccurrence f = Some a" and "a < length h"
  shows "Field_Merge order h f g =
       Inr (h[a := add_occurrences (h ! a) (dom (deref h (typeOccurrence g)))],
            f\<lparr>dataType := if dom (deref h (typeOccurrence g)) \<subseteq> dom (h ! a)
                           then dataType f else None\<rparr>)"
  unfolding Field_Merge_def Field_Merge_loop_result [OF assms(2,3)]
  using assms(1) by (simp add: range_order_def)

lemma Fields_Merge_append:
  "Fields_Merge_map order (xs @ ys) h f =
     (case Fields_Merge_map order xs h f of
        Inl p \<Rightarrow> Inl p
      | Inr (h1, f1) \<Rightarrow> Fields_Merge_map order ys h1 f1)"
proof (induction xs arbitrary: h f)
  case Nil
  then show ?case by simp
next
  case (Cons e xs)
  obtain n g where e: "e = (n, g)" by (cases e)
  show ?case
  proof (cases "f n")
    case None
    define f1 where "f1 = f(n \<mapsto> g)"
    from None have "Fields_Merge_map order ((n, g) # xs @ ys) h f =
        Fields_Merge_map order (xs @ ys) h f1"
      and "Fields_Merge_map order ((n, g) # xs) h f = Fields_Merge_map order xs h f1"
      by (simp_all add: f1_def)
    with Cons.IH [of h f1] show ?thesis unfolding e by simp
  next
    case (Some cur)
    show ?thesis
    proof (cases "Field_Merge order h cur g")
      case (Inl p)
      with Some show ?thesis unfolding e by simp
    next
      case (Inr r)
      obtain h1 cur' where r: "r = (h1, cur')" by (cases r)
      define f1 where "f1 = f(n \<mapsto> cur')"
      from Some Inr r have "Fields_Merge_map order ((n, g) # xs @ ys) h f =
          Fields_Merge_map order (xs @ ys) h1 f1"
        and "Fields_Merge_map order ((n, g) # xs) h f = Fields_Merge_map order xs h1 f1"
        by (simp_all add: f1_def)
      with Cons.IH [of h1 f1] show ?thesis unfolding e by simp
    qed
  qed
qed

lemma map_of_snoc:
  "n \<notin> fst ` set xs \<Longrightarrow> map_of (xs @ [(n, g)]) = (map_of xs)(n \<mapsto> g)"
proof -
  assume "n \<notin> fst ` set xs"
  then have "map_of xs n = None" by (simp add: map_of_eq_None_iff)
  then show ?thesis by (auto simp: fun_eq_iff map_add_def split: option.splits)
qed

lemma Fields_Add_Some: "Fields_Add other (Some m) = Inr (Some (map_of other ++ m))"
proof (induction other arbitrary: m)
  case Nil
  then show ?case by simp
next
  case (Cons e other)
  obtain n g where e: "e = (n, g)" by (cases e)
  show ?case
  proof (cases "m n")
    case None
    define m1 where "m1 = m(n \<mapsto> g)"
    from None have "Fields_Add ((n, g) # other) (Some m) = Fields_Add other (Some m1)"
      by (simp add: m1_def)
    also have "\<dots> = Inr (Some (map_of other ++ m1))" by (rule Cons.IH)
    also have "map_of other ++ m1 = map_of ((n, g) # other) ++ m"
      using None by (auto simp: m1_def fun_eq_iff map_add_def split: option.splits)
    finally show ?thesis unfolding e .
  next
    case (Some x)
    then have "Fields_Add ((n, g) # other) (Some m) = Fields_Add other (Some m)"
      by simp
    also have "\<dots> = Inr (Some (map_of other ++ m))" by (rule Cons.IH)
    also have "map_of other ++ m = map_of ((n, g) # other) ++ m"
      using Some by (auto simp: fun_eq_iff map_add_def split: option.splits)
    finally show ?thesis unfolding e .
  qed
qed

lemma Fields_Add_None:
  "Fields_Add other None = (if other = [] then Inr None else Inl NilMapWrite)"
proof (cases other)
  case Nil
  then show ?thesis by simp
next
  case (Cons e other')
  obtain n g where "e = (n, g)" by (cases e)
  with Cons show ?thesis by simp
qed

lemma Fields_Merge_single_absent:
  "f n = None \<Longrightarrow> Fields_Merge_map order [(n, g)] h f = Inr (h, f(n \<mapsto> g))"
  by simp

lemma Fields_Merge_single_present:
  "f n = Some cur \<Longrightarrow> Field_Merge order h cur g = Inr (h1, cur') \<Longrightarrow>
     Fields_Merge_map order [(n, g)] h f = Inr (h1, f(n \<mapsto> cur'))"
  by simp

lemma Fields_Merge_closed:
  assumes ro: "range_order order"
    and d: "distinct (map fst other)"
    and own: "owns_maps h f (map_of other)"
  shows "\<exists>h' f'. Fields_Merge_map order other h f = Inr (h', f') \<and> length h' = length h
     \<and> (\<forall>n. f' n =
           (case map_of other n of
              None \<Rightarrow> f n
            | Some gf \<Rightarrow>
                (case f n of
                   None \<Rightarrow> Some gf
                 | Some cf \<Rightarrow>
                     Some (cf\<lparr>dataType :=
                              if dom (deref h (typeOccurrence gf)) \<subseteq> dom (deref h (typeOccurrence cf))
                              then dataType cf else None\<rparr>))))
     \<and> (\<forall>n cf gf a. f n = Some cf \<and> map_of other n = Some gf \<and> typeOccurrence cf = Some a \<longrightarrow>
           h' ! a = add_occurrences (h ! a) (dom (deref h (typeOccurrence gf))))
     \<and> (\<forall>a. (\<forall>n cf gf. f n = Some cf \<and> map_of other n = Some gf \<longrightarrow> typeOccurrence cf \<noteq> Some a)
           \<longrightarrow> h' ! a = h ! a)"
  using d own
proof (induction other rule: rev_induct)
  case Nil
  show ?case by simp
next
  case (snoc e xs)
  obtain n gf where e: "e = (n, gf)" by (cases e)
  from snoc.prems(1) e have dxs: "distinct (map fst xs)" and nn: "n \<notin> fst ` set xs"
    by simp_all
  have G: "map_of (xs @ [e]) = (map_of xs)(n \<mapsto> gf)"
    unfolding e by (rule map_of_snoc [OF nn])
  have Gn: "map_of xs n = None" using nn by (simp add: map_of_eq_None_iff)
  have Gxs: "m \<noteq> n \<and> map_of (xs @ [e]) m = Some y" if "map_of xs m = Some y" for m y
    using that Gn G by auto
  note own = snoc.prems(2) [unfolded owns_maps_def]
  have v: "\<exists>a. typeOccurrence x = Some a \<and> a < length h" if "f m = Some x" for m x
    using own that by blast
  have inj: "typeOccurrence x \<noteq> typeOccurrence y"
    if "f m = Some x" "f k = Some y" "m \<noteq> k" for m k x y
    using own that by blast
  have dis: "typeOccurrence x \<noteq> typeOccurrence y"
    if "f m = Some x" "map_of (xs @ [e]) k = Some y" for m k x y
    using own that by blast
  have own_xs: "owns_maps h f (map_of xs)"
    unfolding owns_maps_def using v inj dis Gxs by blast
  from snoc.IH [OF dxs own_xs] obtain h1 f1 where
    P1: "Fields_Merge_map order xs h f = Inr (h1, f1)" and L1: "length h1 = length h"
    and F1: "\<And>m. f1 m =
           (case map_of xs m of
              None \<Rightarrow> f m
            | Some gf \<Rightarrow>
                (case f m of
                   None \<Rightarrow> Some gf
                 | Some cf \<Rightarrow>
                     Some (cf\<lparr>dataType :=
                              if dom (deref h (typeOccurrence gf)) \<subseteq> dom (deref h (typeOccurrence cf))
                              then dataType cf else None\<rparr>)))"
    and S1: "\<And>m cf gf a. f m = Some cf \<Longrightarrow> map_of xs m = Some gf \<Longrightarrow> typeOccurrence cf = Some a \<Longrightarrow>
           h1 ! a = add_occurrences (h ! a) (dom (deref h (typeOccurrence gf)))"
    and N1: "\<And>a. (\<forall>m cf gf. f m = Some cf \<and> map_of xs m = Some gf \<longrightarrow> typeOccurrence cf \<noteq> Some a)
           \<Longrightarrow> h1 ! a = h ! a"
    by blast
  have app: "Fields_Merge_map order (xs @ [e]) h f = Fields_Merge_map order [(n, gf)] h1 f1"
    unfolding Fields_Merge_append P1 e by simp
  have f1n: "f1 n = f n" using F1 [of n] Gn by simp
  have F1': "f1 m =
           (case map_of (xs @ [e]) m of
              None \<Rightarrow> f m
            | Some gf \<Rightarrow>
                (case f m of
                   None \<Rightarrow> Some gf
                 | Some cf \<Rightarrow>
                     Some (cf\<lparr>dataType :=
                              if dom (deref h (typeOccurrence gf)) \<subseteq> dom (deref h (typeOccurrence cf))
                              then dataType cf else None\<rparr>)))" if "m \<noteq> n" for m
  proof -
    have "map_of (xs @ [e]) m = map_of xs m" unfolding G using that by simp
    then show ?thesis unfolding F1 [of m] by (rule arg_cong [where f = "\<lambda>x. case x of None \<Rightarrow> _ | Some g \<Rightarrow> _ g", symmetric])
  qed
  have Gm: "map_of (xs @ [e]) m = map_of xs m" if "m \<noteq> n" for m
    unfolding G using that by simp
  have shared_xs: "map_of xs m = Some g'" if "map_of (xs @ [e]) m = Some g'" "m \<noteq> n" for m g'
    using that(1) unfolding Gm [OF that(2)] .
  have Gnn: "map_of (xs @ [e]) n = Some gf" unfolding G by simp
  show ?case
  proof (cases "f n")
    case None
    define f' where "f' = f1(n \<mapsto> gf)"
    have R: "Fields_Merge_map order (xs @ [e]) h f = Inr (h1, f')"
      unfolding app f'_def using f1n None by (simp add: Fields_Merge_single_absent)
    have Fp: "\<forall>m. f' m =
           (case map_of (xs @ [e]) m of
              None \<Rightarrow> f m
            | Some gf \<Rightarrow>
                (case f m of
                   None \<Rightarrow> Some gf
                 | Some cf \<Rightarrow>
                     Some (cf\<lparr>dataType :=
                              if dom (deref h (typeOccurrence gf)) \<subseteq> dom (deref h (typeOccurrence cf))
                              then dataType cf else None\<rparr>)))"
    proof
      fix m show "f' m =
           (case map_of (xs @ [e]) m of
              None \<Rightarrow> f m
            | Some gf \<Rightarrow>
                (case f m of
                   None \<Rightarrow> Some gf
                 | Some cf \<Rightarrow>
                     Some (cf\<lparr>dataType :=
                              if dom (deref h (typeOccurrence gf)) \<subseteq> dom (deref h (typeOccurrence cf))
                              then dataType cf else None\<rparr>)))"
      proof (cases "m = n")
        case True
        then show ?thesis using None Gnn by (simp add: f'_def)
      next
        case False
        then show ?thesis using F1' [OF False] by (simp add: f'_def)
      qed
    qed
    have Sp: "\<forall>m cf g' a. f m = Some cf \<and> map_of (xs @ [e]) m = Some g' \<and> typeOccurrence cf = Some a \<longrightarrow>
           h1 ! a = add_occurrences (h ! a) (dom (deref h (typeOccurrence g')))"
    proof (intro allI impI, elim conjE)
      fix m cf g' a
      assume 1: "f m = Some cf" and 2: "map_of (xs @ [e]) m = Some g'"
        and 3: "typeOccurrence cf = Some a"
      from 1 None have "m \<noteq> n" by auto
      from S1 [OF 1 shared_xs [OF 2 this] 3]
      show "h1 ! a = add_occurrences (h ! a) (dom (deref h (typeOccurrence g')))" .
    qed
    have Np: "\<forall>a. (\<forall>m cf g'. f m = Some cf \<and> map_of (xs @ [e]) m = Some g' \<longrightarrow> typeOccurrence cf \<noteq> Some a)
           \<longrightarrow> h1 ! a = h ! a"
    proof (intro allI impI)
      fix a
      assume A: "\<forall>m cf g'. f m = Some cf \<and> map_of (xs @ [e]) m = Some g' \<longrightarrow> typeOccurrence cf \<noteq> Some a"
      have "\<forall>m cf g'. f m = Some cf \<and> map_of xs m = Some g' \<longrightarrow> typeOccurrence cf \<noteq> Some a"
        using A Gxs by blast
      then show "h1 ! a = h ! a" by (rule N1)
    qed
    from R L1 Fp Sp Np show ?thesis by blast
  next
    case (Some cf)
    from v [OF Some] obtain a where a: "typeOccurrence cf = Some a" "a < length h" by blast
    let ?S = "dom (deref h (typeOccurrence gf))"
    have h1a: "h1 ! a = h ! a"
    proof (rule N1, intro allI impI, elim conjE)
      fix m cf' g'
      assume 1: "f m = Some cf'" and 2: "map_of xs m = Some g'"
      from Gxs [OF 2] have "m \<noteq> n" by simp
      from inj [OF 1 Some this] a show "typeOccurrence cf' \<noteq> Some a" by simp
    qed
    have dg: "deref h1 (typeOccurrence gf) = deref h (typeOccurrence gf)"
    proof (rule deref_cong_nth [OF L1])
      fix b assume b: "typeOccurrence gf = Some b"
      show "h1 ! b = h ! b"
      proof (rule N1, intro allI impI, elim conjE)
        fix m cf' g'
        assume 1: "f m = Some cf'"
        from dis [OF 1 Gnn] b show "typeOccurrence cf' \<noteq> Some b" by simp
      qed
    qed
    have dcf: "deref h (typeOccurrence cf) = h ! a" using a by (simp add: deref_def)
    define cf' where "cf' = cf\<lparr>dataType := if ?S \<subseteq> dom (h ! a) then dataType cf else None\<rparr>"
    define h' where "h' = h1[a := add_occurrences (h ! a) ?S]"
    define f' where "f' = f1(n \<mapsto> cf')"
    have FM: "Field_Merge order h1 cf gf = Inr (h', cf')"
      using Field_Merge_result [OF ro a(1), of h1 gf] a(2) L1
      by (simp add: h1a dg h'_def cf'_def)
    have R: "Fields_Merge_map order (xs @ [e]) h f = Inr (h', f')"
      unfolding app f'_def using f1n Some FM by (simp add: Fields_Merge_single_present)
    have L: "length h' = length h" by (simp add: h'_def L1)
    have Fp: "\<forall>m. f' m =
           (case map_of (xs @ [e]) m of
              None \<Rightarrow> f m
            | Some gf \<Rightarrow>
                (case f m of
                   None \<Rightarrow> Some gf
                 | Some cf \<Rightarrow>
                     Some (cf\<lparr>dataType :=
                              if dom (deref h (typeOccurrence gf)) \<subseteq> dom (deref h (typeOccurrence cf))
                              then dataType cf else None\<rparr>)))"
    proof
      fix m show "f' m =
           (case map_of (xs @ [e]) m of
              None \<Rightarrow> f m
            | Some gf \<Rightarrow>
                (case f m of
                   None \<Rightarrow> Some gf
                 | Some cf \<Rightarrow>
                     Some (cf\<lparr>dataType :=
                              if dom (deref h (typeOccurrence gf)) \<subseteq> dom (deref h (typeOccurrence cf))
                              then dataType cf else None\<rparr>)))"
      proof (cases "m = n")
        case True
        then show ?thesis using Some Gnn by (simp add: f'_def cf'_def dcf)
      next
        case False
        then show ?thesis using F1' [OF False] by (simp add: f'_def)
      qed
    qed
    have Sp: "\<forall>m c g' b. f m = Some c \<and> map_of (xs @ [e]) m = Some g' \<and> typeOccurrence c = Some b \<longrightarrow>
           h' ! b = add_occurrences (h ! b) (dom (deref h (typeOccurrence g')))"
    proof (intro allI impI, elim conjE)
      fix m c g' b
      assume 1: "f m = Some c" and 2: "map_of (xs @ [e]) m = Some g'"
        and 3: "typeOccurrence c = Some b"
      show "h' ! b = add_occurrences (h ! b) (dom (deref h (typeOccurrence g')))"
      proof (cases "m = n")
        case True
        with 1 2 3 Some Gnn a have "c = cf" "g' = gf" "b = a" by simp_all
        then show ?thesis using a(2) L1 by (simp add: h'_def)
      next
        case False
        from inj [OF 1 Some False] 3 a have "b \<noteq> a" by simp
        then have "h' ! b = h1 ! b" by (simp add: h'_def)
        with S1 [OF 1 shared_xs [OF 2 False] 3] show ?thesis by simp
      qed
    qed
    have Np: "\<forall>b. (\<forall>m c g'. f m = Some c \<and> map_of (xs @ [e]) m = Some g' \<longrightarrow> typeOccurrence c \<noteq> Some b)
           \<longrightarrow> h' ! b = h ! b"
    proof (intro allI impI)
      fix b
      assume A: "\<forall>m c g'. f m = Some c \<and> map_of (xs @ [e]) m = Some g' \<longrightarrow> typeOccurrence c \<noteq> Some b"
      from A Some Gnn have "typeOccurrence cf \<noteq> Some b" by blast
      with a(1) have "b \<noteq> a" by auto
      then have 1: "h' ! b = h1 ! b" by (simp add: h'_def)
      have "\<forall>m c g'. f m = Some c \<and> map_of xs m = Some g' \<longrightarrow> typeOccurrence c \<noteq> Some b"
        using A Gxs by blast
      then have "h1 ! b = h ! b" by (rule N1)
      with 1 show "h' ! b = h ! b" by simp
    qed
    from R L Fp Sp Np show ?thesis by blast
  qed
qed


section \<open>Resolved types before and after a merge\<close>

lemma set_type_keys: "set (type_keys m) = dom m"
  using range_order_type_keys by (simp add: range_order_def)

lemma type_keys_cong: "dom m = dom m' \<Longrightarrow> type_keys m = type_keys m'"
  by (simp add: type_keys_def)

lemma join_of_cong: "dom m = dom m' \<Longrightarrow> join_of j m = join_of j m'"
  by (simp add: join_of_def type_keys_cong [of m m'])

lemma type_keys_nonempty: "dom m \<noteq> {} \<Longrightarrow> \<exists>t ts. type_keys m = t # ts"
proof -
  assume "dom m \<noteq> {}"
  then have "set (type_keys m) \<noteq> {}" by (simp add: set_type_keys)
  then show ?thesis by (cases "type_keys m") simp_all
qed

lemma join_of_union:
  assumes L: "join_laws j" and n1: "dom m1 \<noteq> {}" and n2: "dom m2 \<noteq> {}"
    and u: "dom m = dom m1 \<union> dom m2"
  shows "join_of j m = j (join_of j m1) (join_of j m2)"
proof -
  from type_keys_nonempty [OF n1] obtain t ts where k1: "type_keys m1 = t # ts" by blast
  from type_keys_nonempty [OF n2] obtain u us where k2: "type_keys m2 = u # us" by blast
  from u n1 have "dom m \<noteq> {}" by simp
  from type_keys_nonempty [OF this] obtain v vs where k: "type_keys m = v # vs" by blast
  have "set (v # vs) = dom m" using set_type_keys [of m] k by simp
  also have "\<dots> = set (t # ts) \<union> set (u # us)"
    using u set_type_keys [of m1] set_type_keys [of m2] k1 k2 by simp
  also have "\<dots> = set (t # (ts @ u # us))" by auto
  finally have "set (v # vs) = set (t # (ts @ u # us))" .
  from foldl_join_set [OF L this] have "foldl j v vs = foldl j t (ts @ u # us)" .
  also have "\<dots> = j (foldl j t ts) (foldl j u us)" by (rule foldl_join_append [OF L])
  finally show ?thesis by (simp add: join_of_def k k1 k2)
qed

lemma GetType_type_keys_uncached:
  "dataType fld = None \<Longrightarrow>
     GetType j type_keys h fld = join_of j (deref h (typeOccurrence fld))"
  by (cases "type_keys (deref h (typeOccurrence fld))")
     (simp_all add: GetType_def GetType_body_def join_of_def Let_def)

lemma GetType_join_of:
  assumes L: "join_laws j" and ro: "range_order order" and ok: "field_ok j h fld"
  shows "GetType j order h fld = join_of j (deref h (typeOccurrence fld))"
proof (cases "dataType fld")
  case None
  have "GetType j order h fld = GetType j type_keys h fld"
    by (rule GetType_any_order [OF L ro range_order_type_keys])
  with None show ?thesis by (simp add: GetType_type_keys_uncached)
next
  case (Some d)
  with ok have "d = join_of j (deref h (typeOccurrence fld))" by (simp add: field_ok_def)
  with Some show ?thesis by (simp add: GetType_def GetType_body_def)
qed

lemma Fields_Merge_shared:
  assumes L: "join_laws j"
    and ro: "range_order order" and r1: "range_order o1" and r2: "range_order o2"
    and r3: "range_order o3"
    and d: "distinct (map fst other)"
    and own: "owns_maps h f (map_of other)"
    and M: "Fields_Merge_map order other h f = Inr (h', f')"
    and fn: "f n = Some cf" and gn: "(n, gf) \<in> set other"
    and okf: "field_ok j h cf" and okg: "field_ok j h gf"
  shows "\<exists>cf'. f' n = Some cf'
     \<and> typeOccurrence cf' = typeOccurrence cf
     \<and> dom (deref h' (typeOccurrence cf'))
         = dom (deref h (typeOccurrence cf)) \<union> dom (deref h (typeOccurrence gf))
     \<and> GetType j o1 h' cf' = j (GetType j o2 h cf) (GetType j o3 h gf)
     \<and> field_ok j h' cf'"
proof -
  let ?Sf = "dom (deref h (typeOccurrence cf))"
  let ?Sg = "dom (deref h (typeOccurrence gf))"
  have G: "map_of other n = Some gf" by (rule map_of_is_SomeI [OF d gn])
  from own fn obtain a where a: "typeOccurrence cf = Some a" "a < length h"
    unfolding owns_maps_def by blast
  define cf' where "cf' = cf\<lparr>dataType := if ?Sg \<subseteq> ?Sf then dataType cf else None\<rparr>"
  from Fields_Merge_closed [OF ro d own] M
  have len: "length h' = length h"
    and F: "\<And>m. f' m =
           (case map_of other m of
              None \<Rightarrow> f m
            | Some gf \<Rightarrow>
                (case f m of
                   None \<Rightarrow> Some gf
                 | Some cf \<Rightarrow>
                     Some (cf\<lparr>dataType :=
                              if dom (deref h (typeOccurrence gf)) \<subseteq> dom (deref h (typeOccurrence cf))
                              then dataType cf else None\<rparr>)))"
    and S: "\<And>m c g b. f m = Some c \<Longrightarrow> map_of other m = Some g \<Longrightarrow> typeOccurrence c = Some b \<Longrightarrow>
           h' ! b = add_occurrences (h ! b) (dom (deref h (typeOccurrence g)))"
    by auto
  have 1: "f' n = Some cf'" using F [of n] G fn by (simp add: cf'_def)
  have 2: "typeOccurrence cf' = typeOccurrence cf" by (simp add: cf'_def)
  have da: "deref h (typeOccurrence cf) = h ! a" using a by (simp add: deref_def)
  have "deref h' (typeOccurrence cf') = h' ! a" using a len by (simp add: deref_def cf'_def)
  also have "\<dots> = add_occurrences (h ! a) ?Sg" by (rule S [OF fn G a(1)])
  finally have dh': "deref h' (typeOccurrence cf') = add_occurrences (h ! a) ?Sg" .
  have 3: "dom (deref h' (typeOccurrence cf')) = ?Sf \<union> ?Sg"
    by (simp add: dh' dom_add_occurrences da)
  from okf have nf: "?Sf \<noteq> {}" by (simp add: field_ok_def)
  from okg have ng: "?Sg \<noteq> {}" by (simp add: field_ok_def)
  have 5: "field_ok j h' cf'"
  proof (cases "?Sg \<subseteq> ?Sf")
    case True
    then have e: "dom (deref h' (typeOccurrence cf')) = ?Sf" using 3 by auto
    have "join_of j (deref h' (typeOccurrence cf')) = join_of j (deref h (typeOccurrence cf))"
      by (rule join_of_cong [OF e])
    moreover have "dataType cf' = dataType cf" using True by (simp add: cf'_def)
    ultimately show ?thesis using okf e nf
      by (simp add: field_ok_def split: option.splits)
  next
    case False
    then have "dataType cf' = None" by (simp add: cf'_def)
    then show ?thesis using 3 nf by (simp add: field_ok_def)
  qed
  have "GetType j o1 h' cf' = join_of j (deref h' (typeOccurrence cf'))"
    by (rule GetType_join_of [OF L r1 5])
  also have "\<dots> = j (join_of j (deref h (typeOccurrence cf)))
                     (join_of j (deref h (typeOccurrence gf)))"
    by (rule join_of_union [OF L nf ng 3])
  also have "\<dots> = j (GetType j o2 h cf) (GetType j o3 h gf)"
    by (simp add: GetType_join_of [OF L r2 okf] GetType_join_of [OF L r3 okg])
  finally have 4: "GetType j o1 h' cf' = j (GetType j o2 h cf) (GetType j o3 h gf)" .
  from 1 2 3 4 5 show ?thesis by blast
qed

lemma Fields_Merge_rest:
  assumes ro: "range_order order"
    and d: "distinct (map fst other)"
    and own: "owns_maps h f (map_of other)"
    and M: "Fields_Merge_map order other h f = Inr (h', f')"
  shows "\<forall>n gf. f n = None \<and> (n, gf) \<in> set other \<longrightarrow> f' n = Some gf"
    and "\<forall>n. n \<notin> fst ` set other \<longrightarrow> f' n = f n"
    and "\<forall>e \<in> set other. deref h' (typeOccurrence (snd e)) = deref h (typeOccurrence (snd e))"
proof -
  from Fields_Merge_closed [OF ro d own] M
  have len: "length h' = length h"
    and F: "\<And>m. f' m =
           (case map_of other m of
              None \<Rightarrow> f m
            | Some gf \<Rightarrow>
                (case f m of
                   None \<Rightarrow> Some gf
                 | Some cf \<Rightarrow>
                     Some (cf\<lparr>dataType :=
                              if dom (deref h (typeOccurrence gf)) \<subseteq> dom (deref h (typeOccurrence cf))
                              then dataType cf else None\<rparr>)))"
    and N: "\<And>b. (\<forall>m c g. f m = Some c \<and> map_of other m = Some g \<longrightarrow> typeOccurrence c \<noteq> Some b)
           \<Longrightarrow> h' ! b = h ! b"
    by auto
  show "\<forall>n gf. f n = None \<and> (n, gf) \<in> set other \<longrightarrow> f' n = Some gf"
  proof (intro allI impI, elim conjE)
    fix n gf assume 1: "f n = None" and 2: "(n, gf) \<in> set other"
    have "map_of other n = Some gf" by (rule map_of_is_SomeI [OF d 2])
    with F [of n] 1 show "f' n = Some gf" by simp
  qed
  show "\<forall>n. n \<notin> fst ` set other \<longrightarrow> f' n = f n"
  proof (intro allI impI)
    fix n assume "n \<notin> fst ` set other"
    then have "map_of other n = None" by (simp add: map_of_eq_None_iff)
    with F [of n] show "f' n = f n" by simp
  qed
  show "\<forall>e \<in> set other. deref h' (typeOccurrence (snd e)) = deref h (typeOccurrence (snd e))"
  proof
    fix e assume e: "e \<in> set other"
    then have "(fst e, snd e) \<in> set other" by simp
    then have G: "map_of other (fst e) = Some (snd e)" by (rule map_of_is_SomeI [OF d])
    show "deref h' (typeOccurrence (snd e)) = deref h (typeOccurrence (snd e))"
    proof (rule deref_cong_nth [OF len])
      fix b assume b: "typeOccurrence (snd e) = Some b"
      show "h' ! b = h ! b"
      proof (rule N, intro allI impI, elim conjE)
        fix m c g assume "f m = Some c"
        with own G have "typeOccurrence c \<noteq> typeOccurrence (snd e)"
          unfolding owns_maps_def by blast
        with b show "typeOccurrence c \<noteq> Some b" by simp
      qed
    qed
  qed
qed

section \<open>Fields.Merge and Fields.Add\<close>

lemma stale_run:
  "NewField [] INTEGER = (store_hint, fld_a)"
  "Fields_Merge type_keys entries_c_int store_hint (Some fields_empty)
     = Inr (store_hint, Some fields_c_int)"
  "NewField store_hint STRING = (store_ab, fld_b)"
  "Fields_Merge type_keys entries_c_string store_ab (Some fields_c_int)
     = Inr (store_stale, Some fields_c_wiped)"
  "NewField store_stale STRING = (store_stale3, fld_s2)"
proof -
  have k: "type_keys [STRING \<mapsto> True] = [STRING]" by (simp add: type_keys_def)
  show "NewField [] INTEGER = (store_hint, fld_a)"
    by (simp add: NewField_def store_hint_def fld_a_def)
  show "Fields_Merge type_keys entries_c_int store_hint (Some fields_empty)
     = Inr (store_hint, Some fields_c_int)"
    by (simp add: entries_c_int_def fields_empty_def fields_c_int_def)
  show "NewField store_hint STRING = (store_ab, fld_b)"
    by (simp add: NewField_def store_hint_def store_ab_def fld_b_def)
  show "Fields_Merge type_keys entries_c_string store_ab (Some fields_c_int)
     = Inr (store_stale, Some fields_c_wiped)"
    by (simp add: entries_c_string_def fields_c_int_def fields_c_wiped_def Field_Merge_def
        fld_a_def fld_b_def deref_def store_ab_def store_stale_def k)
  show "NewField store_stale STRING = (store_stale3, fld_s2)"
    by (simp add: NewField_def store_stale_def store_stale3_def fld_s2_def)
qed

lemma stale_merge:
  "GetType GetCommonAncestorType type_keys store_stale3 fld_a = INTEGER"
  "GetType GetCommonAncestorType type_keys store_stale3 fld_s2 = STRING"
  "dom (deref store_stale3 (typeOccurrence fld_a)) = {INTEGER, STRING}"
  "Fields_Merge type_keys entries_c_string2 store_stale3 (Some fields_c_int)
     = Inr (store_stale3, Some fields_c_int)"
  "GetCommonAncestorType INTEGER STRING = STRING"
proof -
  have k: "type_keys [STRING \<mapsto> True] = [STRING]" by (simp add: type_keys_def)
  show "GetType GetCommonAncestorType type_keys store_stale3 fld_a = INTEGER"
    by (simp add: GetType_def GetType_body_def fld_a_def)
  show "GetType GetCommonAncestorType type_keys store_stale3 fld_s2 = STRING"
    by (simp add: GetType_def GetType_body_def fld_s2_def)
  show "dom (deref store_stale3 (typeOccurrence fld_a)) = {INTEGER, STRING}"
    by (auto simp: deref_def store_stale3_def fld_a_def)
  show "Fields_Merge type_keys entries_c_string2 store_stale3 (Some fields_c_int)
     = Inr (store_stale3, Some fields_c_int)"
    by (simp add: entries_c_string2_def fields_c_int_def Field_Merge_def
        fld_a_def fld_s2_def deref_def store_stale3_def k)
  show "GetCommonAncestorType INTEGER STRING = STRING"
    by (simp add: GetCommonAncestorType_def)
qed


lemma shared_and_zero:
  "Fields_Merge type_keys entries_a_string_c_shared store_ab (Some fields_a)
     = Inr (store_stale, Some fields_a_c_shared)"
  "dom (deref store_ab (typeOccurrence fld_a)) = {INTEGER}"
  "dom (deref store_stale (typeOccurrence fld_a)) = {INTEGER, STRING}"
  "Fields_Merge type_keys entries_c_string store_ab (Some fields_c_zero) = Inl NilMapWrite"
proof -
  have k: "type_keys [STRING \<mapsto> True] = [STRING]" by (simp add: type_keys_def)
  show "Fields_Merge type_keys entries_a_string_c_shared store_ab (Some fields_a)
     = Inr (store_stale, Some fields_a_c_shared)"
    by (simp add: entries_a_string_c_shared_def fields_a_def fields_a_c_shared_def
        Field_Merge_def fld_a_def fld_b_def deref_def store_ab_def store_stale_def k)
  show "dom (deref store_ab (typeOccurrence fld_a)) = {INTEGER}"
    by (simp add: deref_def store_ab_def fld_a_def)
  show "dom (deref store_stale (typeOccurrence fld_a)) = {INTEGER, STRING}"
    by (auto simp: deref_def store_stale_def fld_a_def)
  show "Fields_Merge type_keys entries_c_string store_ab (Some fields_c_zero) = Inl NilMapWrite"
    by (simp add: entries_c_string_def fields_c_zero_def fld_zero_def fld_b_def
        Field_Merge_def deref_def store_ab_def k)
qed

text \<open>
  Claim C3, as stated, for every pair of Fields: it fails in these ways.

  On a nil receiver with an entry to copy in, the call panics instead of copying the
  entry; so it does on a receiver whose shared entry is the zero value \<open>Field{}\<close>.

  On the entry \<open>c\<close> of \<open>fields_c_int\<close> in \<open>store_stale3\<close>, which the run above
  reaches with \<open>NewField\<close> and \<open>Merge\<close> alone, the resolved type before the merge is
  integer, the resolved type of the other entry is string, the merge adds nothing and
  keeps the cached type, so the resolved type after the merge is integer and not their
  join, string.

  When the entry \<open>c\<close> of \<open>g\<close> holds the occurrence map of the entry \<open>a\<close> of \<open>f\<close>,
  merging \<open>g\<close>'s string entry \<open>a\<close> writes that map: the occurrence set of \<open>g\<close>'s entry
  \<open>c\<close> is integer before the call and integer and string after it.
\<close>

theorem C3_fields_merge_counterexample:
  "Fields_Merge type_keys entries_c_int store_hint None = Inl NilMapWrite
   \<and> Fields_Merge type_keys entries_c_string store_ab (Some fields_c_zero) = Inl NilMapWrite
   \<and> NewField [] INTEGER = (store_hint, fld_a)
   \<and> Fields_Merge type_keys entries_c_int store_hint (Some fields_empty)
       = Inr (store_hint, Some fields_c_int)
   \<and> NewField store_hint STRING = (store_ab, fld_b)
   \<and> Fields_Merge type_keys entries_c_string store_ab (Some fields_c_int)
       = Inr (store_stale, Some fields_c_wiped)
   \<and> NewField store_stale STRING = (store_stale3, fld_s2)
   \<and> fields_c_int ''c'' = Some fld_a
   \<and> GetType GetCommonAncestorType type_keys store_stale3 fld_a = INTEGER
   \<and> GetType GetCommonAncestorType type_keys store_stale3 fld_s2 = STRING
   \<and> Fields_Merge type_keys entries_c_string2 store_stale3 (Some fields_c_int)
       = Inr (store_stale3, Some fields_c_int)
   \<and> GetCommonAncestorType INTEGER STRING = STRING
   \<and> GetType GetCommonAncestorType type_keys store_stale3 fld_a
       \<noteq> GetCommonAncestorType (GetType GetCommonAncestorType type_keys store_stale3 fld_a)
           (GetType GetCommonAncestorType type_keys store_stale3 fld_s2)
   \<and> Fields_Merge type_keys entries_a_string_c_shared store_ab (Some fields_a)
       = Inr (store_stale, Some fields_a_c_shared)
   \<and> (''c'', fld_a) \<in> set entries_a_string_c_shared
   \<and> dom (deref store_ab (typeOccurrence fld_a)) = {INTEGER}
   \<and> dom (deref store_stale (typeOccurrence fld_a)) = {INTEGER, STRING}"
proof -
  have n: "Fields_Merge type_keys entries_c_int store_hint None = Inl NilMapWrite"
    by (simp add: entries_c_int_def)
  have c: "fields_c_int ''c'' = Some fld_a" by (simp add: fields_c_int_def)
  have d: "GetType GetCommonAncestorType type_keys store_stale3 fld_a
       \<noteq> GetCommonAncestorType (GetType GetCommonAncestorType type_keys store_stale3 fld_a)
           (GetType GetCommonAncestorType type_keys store_stale3 fld_s2)"
    unfolding stale_merge(1,2) by (simp add: GetCommonAncestorType_def)
  have m: "(''c'', fld_a) \<in> set entries_a_string_c_shared"
    by (simp add: entries_a_string_c_shared_def)
  from n c d m stale_run stale_merge(1,2,4,5) shared_and_zero show ?thesis by blast
qed

text \<open>
  Claim C3, amended.  Let the join satisfy the lattice laws, let the receiver \<open>f\<close> not
  be nil, let every entry of \<open>f\<close> hold an allocated occurrence map that no other entry of
  \<open>f\<close> and no entry of \<open>g\<close> holds, and let every entry of \<open>f\<close> and \<open>g\<close> have a
  non-empty occurrence set and a cached type that, when set, is the join of its
  occurrences.  Then \<open>f.Merge(g)\<close> returns, and afterwards: for each name in both, the
  occurrence set of \<open>f\<close>'s entry is the union of its set before and \<open>g\<close>'s set (so a
  superset of that union), and its resolved type is the join of its resolved type before
  and the resolved type of \<open>g\<close>'s entry, whatever order the maps are visited in; a name
  only in \<open>g\<close> has \<open>g\<close>'s entry; a name not in \<open>g\<close> is as before; and the occurrence
  maps of \<open>g\<close>'s entries are as before.
\<close>

theorem C3_fields_merge:
  assumes "join_laws j"
    and "range_order order" and "range_order o1" and "range_order o2" and "range_order o3"
    and "distinct (map fst g)"
    and "owns_maps h f (map_of g)"
    and "\<forall>n x. f n = Some x \<longrightarrow> field_ok j h x"
    and "\<forall>e \<in> set g. field_ok j h (snd e)"
  shows "\<exists>h' f'. Fields_Merge order g h (Some f) = Inr (h', Some f')
     \<and> (\<forall>n cf gf. f n = Some cf \<and> (n, gf) \<in> set g \<longrightarrow>
          (\<exists>cf'. f' n = Some cf'
             \<and> dom (deref h' (typeOccurrence cf'))
                 = dom (deref h (typeOccurrence cf)) \<union> dom (deref h (typeOccurrence gf))
             \<and> GetType j o1 h' cf' = j (GetType j o2 h cf) (GetType j o3 h gf)))
     \<and> (\<forall>n gf. f n = None \<and> (n, gf) \<in> set g \<longrightarrow> f' n = Some gf)
     \<and> (\<forall>n. n \<notin> fst ` set g \<longrightarrow> f' n = f n)
     \<and> (\<forall>e \<in> set g. deref h' (typeOccurrence (snd e)) = deref h (typeOccurrence (snd e)))"
proof -
  from Fields_Merge_closed [OF assms(2,6,7)] obtain h' f' where
    M: "Fields_Merge_map order g h f = Inr (h', f')" by blast
  have M': "Fields_Merge order g h (Some f) = Inr (h', Some f')"
    using M by (rule Fields_Merge_SomeI)
  have S: "\<forall>n cf gf. f n = Some cf \<and> (n, gf) \<in> set g \<longrightarrow>
          (\<exists>cf'. f' n = Some cf'
             \<and> dom (deref h' (typeOccurrence cf'))
                 = dom (deref h (typeOccurrence cf)) \<union> dom (deref h (typeOccurrence gf))
             \<and> GetType j o1 h' cf' = j (GetType j o2 h cf) (GetType j o3 h gf))"
  proof (intro allI impI, elim conjE)
    fix n cf gf assume fn: "f n = Some cf" and gn: "(n, gf) \<in> set g"
    from assms(8) fn have okf: "field_ok j h cf" by blast
    from assms(9) gn have okg: "field_ok j h gf" by auto
    from Fields_Merge_shared [OF assms(1-7) M fn gn okf okg]
    show "\<exists>cf'. f' n = Some cf'
             \<and> dom (deref h' (typeOccurrence cf'))
                 = dom (deref h (typeOccurrence cf)) \<union> dom (deref h (typeOccurrence gf))
             \<and> GetType j o1 h' cf' = j (GetType j o2 h cf) (GetType j o3 h gf)"
      by blast
  qed
  note R = Fields_Merge_rest [OF assms(2,6,7) M]
  from M' S R show ?thesis by blast
qed

lemma example_merge_hyps:
  "distinct (map fst fields_a_c)"
  "owns_maps store_abc fields_a (map_of fields_a_c)"
  "\<forall>n x. fields_a n = Some x \<longrightarrow> field_ok GetCommonAncestorType store_abc x"
  "\<forall>e \<in> set fields_a_c. field_ok GetCommonAncestorType store_abc (snd e)"
proof -
  show "distinct (map fst fields_a_c)" by (simp add: fields_a_c_def)
  show "owns_maps store_abc fields_a (map_of fields_a_c)"
    by (auto simp: owns_maps_def fields_a_def fields_a_c_def fld_a_def fld_b_def fld_c_def
        store_abc_def split: if_splits)
  have k: "type_keys [INTEGER \<mapsto> True] = [INTEGER]" "type_keys [STRING \<mapsto> True] = [STRING]"
    "type_keys [BOOLEAN \<mapsto> True] = [BOOLEAN]"
    by (simp_all add: type_keys_def)
  have a: "field_ok GetCommonAncestorType store_abc fld_a"
    by (simp add: field_ok_def fld_a_def store_abc_def deref_def join_of_def k)
  have b: "field_ok GetCommonAncestorType store_abc fld_b"
    by (simp add: field_ok_def fld_b_def store_abc_def deref_def join_of_def k)
  have c: "field_ok GetCommonAncestorType store_abc fld_c"
    by (simp add: field_ok_def fld_c_def store_abc_def deref_def join_of_def k)
  from a show "\<forall>n x. fields_a n = Some x \<longrightarrow> field_ok GetCommonAncestorType store_abc x"
    by (auto simp: fields_a_def split: if_splits)
  from b c show "\<forall>e \<in> set fields_a_c. field_ok GetCommonAncestorType store_abc (snd e)"
    by (simp add: fields_a_c_def)
qed

lemma example_types:
  "GetType GetCommonAncestorType type_keys store_abc fld_a = INTEGER"
  "GetType GetCommonAncestorType type_keys store_abc fld_b = STRING"
  "dom (deref store_abc (typeOccurrence fld_a)) = {INTEGER}"
  "dom (deref store_abc (typeOccurrence fld_b)) = {STRING}"
  by (simp_all add: GetType_def GetType_body_def fld_a_def fld_b_def deref_def store_abc_def)

theorem C3_fields_merge_witness:
  "join_laws GetCommonAncestorType \<and> range_order type_keys
   \<and> distinct (map fst fields_a_c)
   \<and> owns_maps store_abc fields_a (map_of fields_a_c)
   \<and> field_ok GetCommonAncestorType store_abc fld_a
   \<and> field_ok GetCommonAncestorType store_abc fld_b
   \<and> field_ok GetCommonAncestorType store_abc fld_c
   \<and> (\<exists>h' f'. Fields_Merge type_keys fields_a_c store_abc (Some fields_a) = Inr (h', Some f')
         \<and> (\<exists>cf'. f' ''a'' = Some cf'
               \<and> dom (deref h' (typeOccurrence cf')) = {INTEGER, STRING}
               \<and> GetType GetCommonAncestorType type_keys h' cf' = STRING)
         \<and> f' ''c'' = Some fld_c
         \<and> deref h' (typeOccurrence fld_b) = deref store_abc (typeOccurrence fld_b))"
proof -
  note H = example_merge_hyps
  have fa: "fields_a ''a'' = Some fld_a" "fields_a ''c'' = None"
    by (simp_all add: fields_a_def)
  have ga: "(''a'', fld_b) \<in> set fields_a_c" "(''c'', fld_c) \<in> set fields_a_c"
    by (simp_all add: fields_a_c_def)
  from H(3) fa have oka: "field_ok GetCommonAncestorType store_abc fld_a" by blast
  from H(4) ga have okb: "field_ok GetCommonAncestorType store_abc fld_b"
    and okc: "field_ok GetCommonAncestorType store_abc fld_c" by auto
  from C3_fields_merge [OF GetCommonAncestorType_laws range_order_type_keys
      range_order_type_keys range_order_type_keys range_order_type_keys H]
  obtain h' f' where
    M: "Fields_Merge type_keys fields_a_c store_abc (Some fields_a) = Inr (h', Some f')"
    and S: "\<forall>n cf gf. fields_a n = Some cf \<and> (n, gf) \<in> set fields_a_c \<longrightarrow>
          (\<exists>cf'. f' n = Some cf'
             \<and> dom (deref h' (typeOccurrence cf'))
                 = dom (deref store_abc (typeOccurrence cf))
                   \<union> dom (deref store_abc (typeOccurrence gf))
             \<and> GetType GetCommonAncestorType type_keys h' cf'
                 = GetCommonAncestorType (GetType GetCommonAncestorType type_keys store_abc cf)
                     (GetType GetCommonAncestorType type_keys store_abc gf))"
    and N: "\<forall>n gf. fields_a n = None \<and> (n, gf) \<in> set fields_a_c \<longrightarrow> f' n = Some gf"
    and U: "\<forall>e \<in> set fields_a_c.
              deref h' (typeOccurrence (snd e)) = deref store_abc (typeOccurrence (snd e))"
    by blast
  from S fa(1) ga(1) obtain cf' where c: "f' ''a'' = Some cf'"
    and c1: "dom (deref h' (typeOccurrence cf'))
                 = dom (deref store_abc (typeOccurrence fld_a))
                   \<union> dom (deref store_abc (typeOccurrence fld_b))"
    and c2: "GetType GetCommonAncestorType type_keys h' cf'
                 = GetCommonAncestorType (GetType GetCommonAncestorType type_keys store_abc fld_a)
                     (GetType GetCommonAncestorType type_keys store_abc fld_b)"
    by blast
  have c1': "dom (deref h' (typeOccurrence cf')) = {INTEGER, STRING}"
    unfolding c1 example_types by auto
  have c2': "GetType GetCommonAncestorType type_keys h' cf' = STRING"
    unfolding c2 example_types by (simp add: GetCommonAncestorType_def)
  from N fa(2) ga(2) have n: "f' ''c'' = Some fld_c" by blast
  from U ga(1) have u: "deref h' (typeOccurrence fld_b) = deref store_abc (typeOccurrence fld_b)"
    by auto
  from M c c1' c2' n u have
    "\<exists>h' f'. Fields_Merge type_keys fields_a_c store_abc (Some fields_a) = Inr (h', Some f')
         \<and> (\<exists>cf'. f' ''a'' = Some cf'
               \<and> dom (deref h' (typeOccurrence cf')) = {INTEGER, STRING}
               \<and> GetType GetCommonAncestorType type_keys h' cf' = STRING)
         \<and> f' ''c'' = Some fld_c
         \<and> deref h' (typeOccurrence fld_b) = deref store_abc (typeOccurrence fld_b)"
    by blast
  with GetCommonAncestorType_laws range_order_type_keys H(1,2) oka okb okc
  show ?thesis by blast
qed

text \<open>
  Claim C6, at two Fields with the overlapping name \<open>c\<close> and differing types.  The
  receiver is \<open>fields_c_int\<close> in \<open>store_stale3\<close>: its entry \<open>c\<close> was built by
  \<open>NewField(INTEGER)\<close>, copied into another Fields by \<open>Merge\<close>, and a string was merged
  into that copy, so the entry has the occurrences integer and string and still the cached
  type integer.  The other Fields holds \<open>NewField(STRING)\<close> under \<open>c\<close>.  \<open>Add\<close>
  leaves the receiver as it is.  \<open>Merge\<close> adds nothing and keeps the cached type: the
  resolved type of the shared entry stays integer, where the join of the two entries' types
  is string.
\<close>

theorem C6_merge_keeps_stale_type:
  "Fields_Merge type_keys entries_c_int store_hint (Some fields_empty)
       = Inr (store_hint, Some fields_c_int)
   \<and> Fields_Merge type_keys entries_c_string store_ab (Some fields_c_int)
       = Inr (store_stale, Some fields_c_wiped)
   \<and> NewField store_stale STRING = (store_stale3, fld_s2)
   \<and> fields_c_int ''c'' = Some fld_a
   \<and> dataType fld_a = Some INTEGER
   \<and> dom (deref store_stale3 (typeOccurrence fld_a)) = {INTEGER, STRING}
   \<and> Fields_Add entries_c_string2 (Some fields_c_int) = Inr (Some fields_c_int)
   \<and> Fields_Merge type_keys entries_c_string2 store_stale3 (Some fields_c_int)
       = Inr (store_stale3, Some fields_c_int)
   \<and> GetType GetCommonAncestorType type_keys store_stale3 fld_a = INTEGER
   \<and> GetType GetCommonAncestorType type_keys store_stale3 fld_s2 = STRING
   \<and> GetCommonAncestorType INTEGER STRING = STRING"
proof -
  have c: "fields_c_int ''c'' = Some fld_a" by (simp add: fields_c_int_def)
  have t: "dataType fld_a = Some INTEGER" by (simp add: fld_a_def)
  have a: "Fields_Add entries_c_string2 (Some fields_c_int) = Inr (Some fields_c_int)"
    by (simp add: entries_c_string2_def fields_c_int_def)
  from c t a stale_run(2,4,5) stale_merge show ?thesis by blast
qed

end
